theory Spec2Isabelle
  imports Complex_Main "HOL-Library.Multiset"
begin

section \<open>The JavaScript runtime pieces the server relies on\<close>

text \<open>
  The server is a single Express module. The sources hold several revisions of it; the
  two modelled here are the one with the refresh timers (the first file of
  \<^verbatim>\<open>src/unnamed/part_000\<close>, called the timer revision below) and \<^verbatim>\<open>src/server.js\<close>. Where
  the two differ, the plain name is the timer revision's and the name ending in
  \<open>_server\<close> is that of \<^verbatim>\<open>src/server.js\<close>. The state of the module is a handful of
  module-level variables, its effects are axios calls to the upstream API and reads of the
  clock. This section models the library functions the module calls: truthiness, the
  coercion of \<^verbatim>\<open>null\<close> in comparisons, \<^verbatim>\<open>Array.prototype.slice\<close>,
  \<^verbatim>\<open>String.prototype.toLowerCase\<close> and \<^verbatim>\<open>includes\<close>, \<^verbatim>\<open>Array.prototype.sort\<close>
  and \<^verbatim>\<open>Promise.all\<close>.
\<close>

text \<open>A string-valued variable that may be \<^verbatim>\<open>null\<close>/\<^verbatim>\<open>undefined\<close> is a
  \<open>string option\<close>; it is truthy when it is a non-empty string.\<close>

definition truthy :: "string option \<Rightarrow> bool" where
  "truthy v = (case v of None \<Rightarrow> False | Some t \<Rightarrow> t \<noteq> [])"

text \<open>A number-valued variable that may be \<^verbatim>\<open>null\<close>: truthy when present and non-zero;
  in a comparison \<^verbatim>\<open>null\<close> is coerced to 0.\<close>

definition truthyNum :: "int option \<Rightarrow> bool" where
  "truthyNum v = (case v of None \<Rightarrow> False | Some n \<Rightarrow> n \<noteq> 0)"

definition toNumber :: "int option \<Rightarrow> int" where
  "toNumber v = (case v of None \<Rightarrow> 0 | Some n \<Rightarrow> n)"

text \<open>\<^verbatim>\<open>xs.slice(start, end)\<close> for integer arguments: a negative index counts from the
  end, both indices are clamped to the array, an empty range gives the empty array.\<close>

definition js_slice :: "'a list \<Rightarrow> int \<Rightarrow> int \<Rightarrow> 'a list" where
  "js_slice xs start fin =
     (let len = int (length xs);
          k = (if start < 0 then max (len + start) 0 else min start len);
          final = (if fin < 0 then max (len + fin) 0 else min fin len)
      in take (nat (final - k)) (drop (nat k) xs))"

text \<open>\<^verbatim>\<open>toLowerCase\<close> on ASCII text: the 26 capital letters are mapped to their small
  letters, every other character is kept. Text with letters outside ASCII, which
  \<^verbatim>\<open>toLowerCase\<close> also maps, is outside the model; \<open>asciiText\<close> says that a text is
  inside.\<close>

definition asciiText :: "string \<Rightarrow> bool" where
  "asciiText t = list_all (\<lambda>c. (of_char c :: nat) < 128) t"

definition asciiField :: "string option \<Rightarrow> bool" where
  "asciiField v = (case v of None \<Rightarrow> True | Some t \<Rightarrow> asciiText t)"


definition lowerChar :: "char \<Rightarrow> char" where
  "lowerChar c =
     (case map_of (zip ''ABCDEFGHIJKLMNOPQRSTUVWXYZ'' ''abcdefghijklmnopqrstuvwxyz'') c of
        None \<Rightarrow> c
      | Some d \<Rightarrow> d)"

definition toLowerCase :: "string \<Rightarrow> string" where
  "toLowerCase t = map lowerChar t"

text \<open>\<^verbatim>\<open>s.startsWith(t)\<close> and \<^verbatim>\<open>s.includes(t)\<close>: \<open>t\<close> occurs in \<open>s\<close> as a contiguous
  substring.\<close>

fun startsWith :: "string \<Rightarrow> string \<Rightarrow> bool" where
  "startsWith s [] = True"
| "startsWith [] (c # t) = False"
| "startsWith (d # s) (c # t) = (d = c \<and> startsWith s t)"

fun str_includes :: "string \<Rightarrow> string \<Rightarrow> bool" where
  "str_includes [] t = (t = [])"
| "str_includes (c # s) t = (startsWith (c # s) t \<or> str_includes s t)"

text \<open>
  \<^verbatim>\<open>xs.sort(comparefn)\<close> is not fixed here: the sort of the runtime is a component of
  the environment (\<open>arraySort\<close> below). The language promises that the result is a
  permutation of the array and, for a comparator that is a consistent ordering, that it is
  sorted and stable; for any other comparator (the server's is one, once some records lack
  a creation time) the order is left to the implementation. A comparator result is an
  \<open>int option\<close> with \<open>None\<close> for \<^verbatim>\<open>NaN\<close>, which a sort reads as \<open>+0\<close>.

  \<open>insertionSort\<close> is one sort that meets the promise, the stable insertion sort. It
  serves as the sort of the example environments only.
\<close>

definition sortCompare :: "('a \<Rightarrow> 'a \<Rightarrow> int option) \<Rightarrow> 'a \<Rightarrow> 'a \<Rightarrow> int" where
  "sortCompare comparefn x y = (case comparefn x y of None \<Rightarrow> 0 | Some v \<Rightarrow> v)"

fun insertSorted :: "('a \<Rightarrow> 'a \<Rightarrow> int option) \<Rightarrow> 'a \<Rightarrow> 'a list \<Rightarrow> 'a list" where
  "insertSorted comparefn x [] = [x]"
| "insertSorted comparefn x (y # ys) =
     (if sortCompare comparefn x y \<le> 0 then x # y # ys
      else y # insertSorted comparefn x ys)"

definition insertionSort :: "('a \<Rightarrow> 'a \<Rightarrow> int option) \<Rightarrow> 'a list \<Rightarrow> 'a list" where
  "insertionSort comparefn xs = foldr (insertSorted comparefn) xs []"

text \<open>
  Numbers. A JavaScript number is an IEEE double; the integers the handlers compute with
  are held exactly up to \<open>2^53\<close> and rounded to the nearest double (ties to the even
  mantissa) beyond. \<open>jsNumber i\<close> is the double nearest to the integer \<open>i\<close>; the result of
  \<^verbatim>\<open>a + b\<close>, \<^verbatim>\<open>a - b\<close> or \<^verbatim>\<open>a * b\<close> on integer-valued numbers is \<open>jsNumber\<close> of the exact
  result. Overflow to \<^verbatim>\<open>Infinity\<close> (beyond about \<open>2^1024\<close>) is not modelled: where the handlers
  can reach it (the two slice indices) an infinite index and a huge finite one select the
  same elements.
\<close>

fun bitLength :: "nat \<Rightarrow> nat" where
  "bitLength n = (if n = 0 then 0 else Suc (bitLength (n div 2)))"

declare bitLength.simps [simp del]

definition roundToDouble :: "nat \<Rightarrow> nat" where
  "roundToDouble n =
     (if n < 2 ^ 53 then n
      else (let u = 2 ^ (bitLength n - 53); q = n div u; r = n mod u
            in if 2 * r < u \<or> (2 * r = u \<and> even q) then q * u else (q + 1) * u))"

definition jsNumber :: "int \<Rightarrow> int" where
  "jsNumber i =
     (if i < 0 then - int (roundToDouble (nat (- i))) else int (roundToDouble (nat i)))"

text \<open>
  \<^verbatim>\<open>Promise.all(promises)\<close> for promises that all fulfil. Promise number \<open>i\<close> fulfils
  with \<open>f (ps ! i)\<close> after \<open>latency (ps ! i)\<close>; the promises settle in the order of their
  latencies, and each settlement stores its value in slot \<open>i\<close> of the result array. A slot
  that was never written would be \<^verbatim>\<open>undefined\<close>: \<open>None\<close>.
\<close>

definition settleOrder :: "('p \<Rightarrow> nat) \<Rightarrow> 'p list \<Rightarrow> nat list" where
  "settleOrder latency ps = sort_key (\<lambda>i. latency (ps ! i)) [0..<length ps]"

definition promiseAll :: "('p \<Rightarrow> nat) \<Rightarrow> 'p list \<Rightarrow> ('p \<Rightarrow> 'v) \<Rightarrow> 'v option list" where
  "promiseAll latency ps f =
     fold (\<lambda>i values. values[i := Some (f (ps ! i))])
          (settleOrder latency ps)
          (replicate (length ps) None)"

section \<open>Data model\<close>

text \<open>A job record as the upstream API delivers it. Only the fields the server reads are
  kept; a field that is absent or \<^verbatim>\<open>null\<close> is \<open>None\<close>. \<open>zip_code\<close> holds the text
  \<^verbatim>\<open>zip_code.toString()\<close> gives (the field may be a number or a string).\<close>

record job =
  job_title :: "string option"
  client :: "string option"
  skills :: "string option"
  city :: "string option"
  country :: "string option"
  zip_code :: "string option"
  Created :: "string option"

text \<open>What an axios call yields: a response with its \<^verbatim>\<open>data\<close> (possibly missing), or a
  rejection carrying \<^verbatim>\<open>error.response.status\<close> (absent on a transport failure) and
  \<^verbatim>\<open>error.message\<close>.\<close>

datatype 'd reply = Reply "'d option" | Rejected "nat option" string

record auth_data =
  access_token :: "string option"
  refresh_token :: "string option"

record page_data =
  data_results :: "job list option"
  data_num_pages :: "int option"
  data_count :: "int option"

datatype error = AxiosError "nat option" string | Error string | TypeError string

fun errorMessage :: "error \<Rightarrow> string" where
  "errorMessage (AxiosError st msg) = msg"
| "errorMessage (Error msg) = msg"
| "errorMessage (TypeError msg) = msg"

fun errorStatus :: "error \<Rightarrow> nat option" where
  "errorStatus (AxiosError st msg) = st"
| "errorStatus (Error msg) = None"
| "errorStatus (TypeError msg) = None"

text \<open>The upstream requests the server issues, recorded in the order of issue.\<close>

datatype request_sent = PostCreateAuthtoken | PostRefreshToken | GetJobsPage int

text \<open>The module-level variables. \<open>requests\<close> is not a variable of the program: it is the
  trace of upstream calls made so far, kept so that "performs no upstream call" can be
  stated.\<close>

record state =
  accessToken :: "string option"
  refreshToken :: "string option"
  accessTokenExpiry :: "int option"
  refreshTokenExpiry :: "int option"
  cachedJobs :: "job list"
  totalJobCount :: int
  cacheTimestamp :: "int option"
  totalPages :: int
  requests :: "request_sent list"

definition initialState :: state where
  "initialState =
     \<lparr>accessToken = None, refreshToken = None, accessTokenExpiry = None,
      refreshTokenExpiry = None, cachedJobs = [], totalJobCount = 313,
      cacheTimestamp = None, totalPages = 16, requests = []\<rparr>"

text \<open>
  Everything outside the program during one operation: the reading of \<^verbatim>\<open>Date.now()\<close>
  (milliseconds; the clock does not advance within one operation), the runtime's date
  parser (\<^verbatim>\<open>new Date(s).getTime()\<close>, \<open>None\<close> for \<^verbatim>\<open>NaN\<close>), the runtime's
  \<^verbatim>\<open>Array.prototype.sort\<close> on arrays of job records, and what the upstream answers
  at each call site: the login, the token refresh, page 1 of the bulk fetch, every further
  page with the time it takes, the retry of page 1 after a re-authentication, and the
  single-page request a handler falls back to.
\<close>

record env =
  now :: int
  getTime :: "string \<Rightarrow> int option"
  arraySort :: "(job \<Rightarrow> job \<Rightarrow> int option) \<Rightarrow> job list \<Rightarrow> job list"
  authReply :: "auth_data reply"
  refreshReply :: "auth_data reply"
  firstPageReply :: "page_data reply"
  pageReply :: "int \<Rightarrow> page_data reply"
  pageLatency :: "int \<Rightarrow> nat"
  retryReply :: "page_data reply"
  fallbackReply :: "page_data reply"

section \<open>Credential manager\<close>

text \<open>\<^verbatim>\<open>response.data && response.data.access_token\<close>: the token when it is truthy.\<close>

definition tokenOf :: "auth_data option \<Rightarrow> string option" where
  "tokenOf d =
     (case d of
        None \<Rightarrow> None
      | Some a \<Rightarrow> (if truthy (access_token a) then access_token a else None))"

definition refreshTokenOf :: "auth_data option \<Rightarrow> string option" where
  "refreshTokenOf d = (case d of None \<Rightarrow> None | Some a \<Rightarrow> refresh_token a)"

definition getAuthTokens :: "env \<Rightarrow> state \<Rightarrow> state \<times> (error + string)" where
  "getAuthTokens e s =
     (let s1 = s\<lparr>requests := requests s @ [PostCreateAuthtoken]\<rparr> in
      case authReply e of
        Rejected st msg \<Rightarrow> (s1, Inl (AxiosError st msg))
      | Reply d \<Rightarrow>
          (case tokenOf d of
             None \<Rightarrow> (s1, Inl (Error ''Failed to get access_token from response''))
           | Some tok \<Rightarrow>
               (s1\<lparr>accessToken := Some tok,
                   refreshToken := refreshTokenOf d,
                   accessTokenExpiry := Some (now e + 24 * 60 * 60 * 1000),
                   refreshTokenExpiry := Some (now e + 7 * 24 * 60 * 60 * 1000)\<rparr>,
                Inr tok)))"

text \<open>\<^verbatim>\<open>refreshAccessToken\<close> of the timer revision: when the refresh call is rejected, or
  answers without a token, the \<^verbatim>\<open>catch\<close> block gets new tokens.\<close>

definition refreshAccessToken :: "env \<Rightarrow> state \<Rightarrow> state \<times> (error + string)" where
  "refreshAccessToken e s =
     (let s1 = s\<lparr>requests := requests s @ [PostRefreshToken]\<rparr> in
      case refreshReply e of
        Rejected st msg \<Rightarrow> getAuthTokens e s1
      | Reply d \<Rightarrow>
          (case tokenOf d of
             None \<Rightarrow> getAuthTokens e s1
           | Some tok \<Rightarrow>
               (s1\<lparr>accessToken := Some tok,
                   accessTokenExpiry := Some (now e + 24 * 60 * 60 * 1000)\<rparr>,
                Inr tok)))"

text \<open>The \<^verbatim>\<open>catch\<close> block of \<^verbatim>\<open>refreshAccessToken\<close> in \<^verbatim>\<open>src/server.js\<close>: new tokens
  only while the refresh token is still valid.\<close>

definition refreshFailed_server :: "env \<Rightarrow> state \<Rightarrow> state \<times> (error + string)" where
  "refreshFailed_server e s1 =
     (if now e < toNumber (refreshTokenExpiry s1) then getAuthTokens e s1
      else (s1, Inl (Error ''Refresh token expired. Please authenticate again.'')))"

definition refreshAccessToken_server :: "env \<Rightarrow> state \<Rightarrow> state \<times> (error + string)" where
  "refreshAccessToken_server e s =
     (let s1 = s\<lparr>requests := requests s @ [PostRefreshToken]\<rparr> in
      case refreshReply e of
        Rejected st msg \<Rightarrow> refreshFailed_server e s1
      | Reply d \<Rightarrow>
          (case tokenOf d of
             None \<Rightarrow> refreshFailed_server e s1
           | Some tok \<Rightarrow>
               (s1\<lparr>accessToken := Some tok,
                   accessTokenExpiry := Some (now e + 24 * 60 * 60 * 1000)\<rparr>,
                Inr tok)))"

text \<open>The middleware \<^verbatim>\<open>ensureToken\<close>. It answers 500 when getting a token fails and
  calls \<^verbatim>\<open>next()\<close> otherwise: the result is \<open>Some\<close> error for the former, \<open>None\<close> for the
  latter. The text of the function is the same in both revisions; the revision decides
  which \<^verbatim>\<open>refreshAccessToken\<close> it calls.\<close>

definition authFailed :: "state \<times> (error + string) \<Rightarrow> state \<times> error option" where
  "authFailed r = (case snd r of Inl err \<Rightarrow> (fst r, Some err) | Inr tok \<Rightarrow> (fst r, None))"

definition ensureToken_with ::
  "(env \<Rightarrow> state \<Rightarrow> state \<times> (error + string)) \<Rightarrow> env \<Rightarrow> state \<Rightarrow> state \<times> error option" where
  "ensureToken_with refresh e s =
     (if \<not> (truthy (accessToken s) \<and> truthy (refreshToken s))
      then authFailed (getAuthTokens e s)
      else if now e > toNumber (accessTokenExpiry s) \<and> now e < toNumber (refreshTokenExpiry s)
      then authFailed (refresh e s)
      else if now e > toNumber (refreshTokenExpiry s)
      then authFailed (getAuthTokens e s)
      else (s, None))"

definition ensureToken :: "env \<Rightarrow> state \<Rightarrow> state \<times> error option" where
  "ensureToken = ensureToken_with refreshAccessToken"

definition ensureToken_server :: "env \<Rightarrow> state \<Rightarrow> state \<times> error option" where
  "ensureToken_server = ensureToken_with refreshAccessToken_server"

section \<open>Upstream fetcher\<close>

text \<open>\<^verbatim>\<open>response.data && response.data.results\<close> (an array is always truthy), and the
  same for a numeric field, which is falsy when it is 0.\<close>

definition resultsOf :: "page_data option \<Rightarrow> job list option" where
  "resultsOf d = (case d of None \<Rightarrow> None | Some pd \<Rightarrow> data_results pd)"

definition numberOf :: "(page_data \<Rightarrow> int option) \<Rightarrow> page_data option \<Rightarrow> int option" where
  "numberOf field d =
     (case d of
        None \<Rightarrow> None
      | Some pd \<Rightarrow> (if truthyNum (field pd) then field pd else None))"

text \<open>The request for a page \<open>n \<ge> 2\<close> carries a \<^verbatim>\<open>.catch\<close> that turns a rejection into
  \<^verbatim>\<open>{ data: { results: [] } }\<close>; the promise therefore always fulfils, with this data.\<close>

definition emptyPage :: page_data where
  "emptyPage = \<lparr>data_results = Some [], data_num_pages = None, data_count = None\<rparr>"

definition caught :: "page_data reply \<Rightarrow> page_data option" where
  "caught r = (case r of Reply d \<Rightarrow> d | Rejected st msg \<Rightarrow> Some emptyPage)"

text \<open>The \<^verbatim>\<open>forEach\<close> that appends every page's results. Reading \<^verbatim>\<open>.data\<close> of an
  \<^verbatim>\<open>undefined\<close> slot would throw.\<close>

fun combineResults :: "job list \<Rightarrow> page_data option option list \<Rightarrow> error + job list" where
  "combineResults allJobs [] = Inr allJobs"
| "combineResults allJobs (None # rest) =
     Inl (TypeError ''Cannot read properties of undefined'')"
| "combineResults allJobs (Some d # rest) =
     combineResults (case resultsOf d of None \<Rightarrow> allJobs | Some rs \<Rightarrow> allJobs @ rs) rest"

text \<open>The creation time the comparator reads off a record: none when \<open>Created\<close> is
  falsy, or when the date parser yields \<^verbatim>\<open>NaN\<close>.\<close>

definition createdTime :: "(string \<Rightarrow> int option) \<Rightarrow> job \<Rightarrow> int option" where
  "createdTime parse j =
     (case Created j of None \<Rightarrow> None | Some c \<Rightarrow> (if c = [] then None else parse c))"

text \<open>The comparator of the sort: \<^verbatim>\<open>b\<close>'s time minus \<^verbatim>\<open>a\<close>'s when both \<open>Created\<close>
  fields are truthy (\<^verbatim>\<open>NaN\<close> when a date does not parse), 0 otherwise.\<close>

definition compareCreated :: "(string \<Rightarrow> int option) \<Rightarrow> job \<Rightarrow> job \<Rightarrow> int option" where
  "compareCreated parse a b =
     (if truthy (Created a) \<and> truthy (Created b) then
        (case createdTime parse b of
           None \<Rightarrow> None
         | Some tb \<Rightarrow> (case createdTime parse a of None \<Rightarrow> None | Some ta \<Rightarrow> Some (tb - ta)))
      else Some 0)"

text \<open>The order the comparator expresses between two records: when both carry a creation
  time, the first is not older than the second.\<close>

definition notOlder :: "(string \<Rightarrow> int option) \<Rightarrow> job \<Rightarrow> job \<Rightarrow> bool" where
  "notOlder parse a b =
     (case createdTime parse a of
        None \<Rightarrow> True
      | Some ta \<Rightarrow> (case createdTime parse b of None \<Rightarrow> True | Some tb \<Rightarrow> tb \<le> ta))"

text \<open>What page 1 tells about the listing: \<^verbatim>\<open>totalPages\<close> and \<^verbatim>\<open>totalJobCount\<close> are
  overwritten only by a truthy \<^verbatim>\<open>num_pages\<close> and \<^verbatim>\<open>count\<close>. \<open>recordsOf\<close> is the list of
  records a response carries (none without \<^verbatim>\<open>data.results\<close>).\<close>

definition newTotalPages :: "state \<Rightarrow> page_data option \<Rightarrow> int" where
  "newTotalPages s d = (case numberOf data_num_pages d of None \<Rightarrow> totalPages s | Some n \<Rightarrow> n)"

definition newTotalJobCount :: "state \<Rightarrow> page_data option \<Rightarrow> int" where
  "newTotalJobCount s d = (case numberOf data_count d of None \<Rightarrow> totalJobCount s | Some n \<Rightarrow> n)"

definition recordsOf :: "page_data option \<Rightarrow> job list" where
  "recordsOf d = (case resultsOf d of None \<Rightarrow> [] | Some rs \<Rightarrow> rs)"

text \<open>The \<^verbatim>\<open>try\<close> block of \<^verbatim>\<open>fetchAllJobsAndUpdateCache\<close>, the same text in both
  revisions: page 1, then the requests for pages 2 to \<^verbatim>\<open>totalPages\<close> issued in a loop and
  awaited together, the results appended page by page, the sort, and the two assignments
  that publish the list.\<close>

definition fetchAllTry :: "env \<Rightarrow> state \<Rightarrow> state \<times> (error + job list)" where
  "fetchAllTry e s =
     (let s1 = s\<lparr>requests := requests s @ [GetJobsPage 1]\<rparr> in
      case firstPageReply e of
        Rejected st msg \<Rightarrow> (s1, Inl (AxiosError st msg))
      | Reply d \<Rightarrow>
          (let pages = [2 .. newTotalPages s1 d];
               s2 = s1\<lparr>totalPages := newTotalPages s1 d,
                       totalJobCount := newTotalJobCount s1 d,
                       requests := requests s1 @ map GetJobsPage pages\<rparr>;
               pageResponses = promiseAll (pageLatency e) pages (\<lambda>p. caught (pageReply e p))
           in case combineResults (recordsOf d) pageResponses of
                Inl err \<Rightarrow> (s2, Inl err)
              | Inr allJobs \<Rightarrow>
                  (s2\<lparr>cachedJobs := arraySort e (compareCreated (getTime e)) allJobs,
                      cacheTimestamp := Some (now e)\<rparr>,
                   Inr (arraySort e (compareCreated (getTime e)) allJobs))))"

text \<open>\<^verbatim>\<open>error.response && (status === 403 || status === 401)\<close>.\<close>

definition authRejected :: "error \<Rightarrow> bool" where
  "authRejected err = (errorStatus err = Some 403 \<or> errorStatus err = Some 401)"

text \<open>The retry inside the \<^verbatim>\<open>catch\<close> block of the timer revision, after new tokens were
  obtained: page 1 once more; its results become the cache as they are.\<close>

definition retryFirstPage :: "env \<Rightarrow> state \<Rightarrow> error \<Rightarrow> state \<times> (error + job list)" where
  "retryFirstPage e s2 err =
     (let s3 = s2\<lparr>requests := requests s2 @ [GetJobsPage 1]\<rparr> in
      case retryReply e of
        Rejected st msg \<Rightarrow> (s3, Inl err)
      | Reply d \<Rightarrow>
          (case resultsOf d of
             None \<Rightarrow> (s3, Inl err)
           | Some rs \<Rightarrow> (s3\<lparr>cachedJobs := rs, cacheTimestamp := Some (now e)\<rparr>, Inr rs)))"

definition fetchAllJobsAndUpdateCache :: "env \<Rightarrow> state \<Rightarrow> state \<times> (error + job list)" where
  "fetchAllJobsAndUpdateCache e s =
     (case fetchAllTry e s of
        (s1, Inr allJobs) \<Rightarrow> (s1, Inr allJobs)
      | (s1, Inl err) \<Rightarrow>
          (if authRejected err then
             (case getAuthTokens e s1 of
                (s2, Inl authErr) \<Rightarrow> (s2, Inl authErr)
              | (s2, Inr tok) \<Rightarrow> retryFirstPage e s2 err)
           else (s1, Inl err)))"

text \<open>In \<^verbatim>\<open>src/server.js\<close> the \<^verbatim>\<open>catch\<close> block only logs and rethrows.\<close>

definition fetchAllJobsAndUpdateCache_server :: "env \<Rightarrow> state \<Rightarrow> state \<times> (error + job list)" where
  "fetchAllJobsAndUpdateCache_server e s = fetchAllTry e s"

text \<open>What the request for one page contributes to the assembled list: the records of
  the response (none when it carries no \<^verbatim>\<open>data.results\<close>), nothing when the request failed.
  \<open>lastPage\<close> is the number of the last page a bulk fetch has to request, read off the
  answer to page 1: its \<^verbatim>\<open>num_pages\<close> when that is a number other than 0, the stored
  \<^verbatim>\<open>totalPages\<close> otherwise. \<open>assembled\<close> is the list before the sort: page 1 first, then
  the pages in the order of their numbers.\<close>

definition pageRecords :: "page_data reply \<Rightarrow> job list" where
  "pageRecords r =
     (case r of
        Rejected st msg \<Rightarrow> []
      | Reply None \<Rightarrow> []
      | Reply (Some pd) \<Rightarrow> (case data_results pd of None \<Rightarrow> [] | Some rs \<Rightarrow> rs))"

definition lastPage :: "state \<Rightarrow> page_data reply \<Rightarrow> int" where
  "lastPage s r =
     (case r of
        Rejected st msg \<Rightarrow> totalPages s
      | Reply None \<Rightarrow> totalPages s
      | Reply (Some pd) \<Rightarrow>
          (case data_num_pages pd of
             None \<Rightarrow> totalPages s
           | Some n \<Rightarrow> (if n = 0 then totalPages s else n)))"

definition assembled :: "env \<Rightarrow> state \<Rightarrow> page_data option \<Rightarrow> job list" where
  "assembled e s d =
     recordsOf d @ concat (map (\<lambda>p. pageRecords (pageReply e p)) [2 .. newTotalPages s d])"

text \<open>The two \<^verbatim>\<open>setInterval\<close> callbacks: each awaits its operation and swallows (logs) a
  failure.\<close>

definition tokenRefreshTick :: "env \<Rightarrow> state \<Rightarrow> state" where
  "tokenRefreshTick e s = fst (getAuthTokens e s)"

definition cacheRefreshTick :: "env \<Rightarrow> state \<Rightarrow> state" where
  "cacheRefreshTick e s = fst (fetchAllJobsAndUpdateCache e s)"

section \<open>Job cache\<close>

definition CACHE_DURATION :: int where
  "CACHE_DURATION = 30 * 60 * 1000"

text \<open>\<^verbatim>\<open>cachedJobs.length > 0 && cacheTimestamp && Date.now() - cacheTimestamp < CACHE_DURATION\<close>,
  computed by both handlers.\<close>

definition isCacheValid :: "state \<Rightarrow> int \<Rightarrow> bool" where
  "isCacheValid s t =
     (length (cachedJobs s) > 0 \<and> truthyNum (cacheTimestamp s)
      \<and> t - toNumber (cacheTimestamp s) < CACHE_DURATION)"

text \<open>The block both handlers start with: the cached list when the cache is valid, a bulk
  fetch otherwise.\<close>

definition getOrRefresh :: "env \<Rightarrow> state \<Rightarrow> state \<times> (error + job list)" where
  "getOrRefresh e s =
     (if isCacheValid s (now e) then (s, Inr (cachedJobs s))
      else fetchAllJobsAndUpdateCache e s)"

section \<open>Query router\<close>

text \<open>What a handler reads of the request. \<open>query_page\<close> and \<open>query_limit\<close> are the
  integers \<^verbatim>\<open>Number.parseInt\<close> yields, \<open>None\<close> when the parameter is absent or empty;
  a parameter that parses to \<^verbatim>\<open>NaN\<close> or \<^verbatim>\<open>Infinity\<close> is outside the model.\<close>

record request =
  protocol :: string
  host :: string
  url :: string
  query_page :: "int option"
  query_query :: "string option"
  query_location :: "string option"
  query_limit :: "int option"

text \<open>\<open>JobsPageLink p h n\<close> stands for the text \<^verbatim>\<open>p://h/api/jobs?page=n\<close>.\<close>

datatype link = JobsPageLink string string int

record jobs_response =
  resp_count :: nat
  resp_num_pages :: int
  resp_limit :: int
  resp_page_number :: int
  resp_page_count :: nat
  resp_next :: "link option"
  resp_previous :: "link option"
  resp_results :: "job list"

text \<open>\<open>search_next\<close> is \<^verbatim>\<open>true\<close> or \<^verbatim>\<open>null\<close>; \<open>search_previous\<close> is always \<^verbatim>\<open>null\<close>.\<close>

record search_response =
  search_count :: nat
  search_total_count :: int
  search_results :: "job list"
  search_next :: "bool option"
  search_previous :: "link option"
  search_num_pages :: int
  search_page_number :: int

text \<open>The answers of the two routes: the page built from the job list, the upstream's own
  page with a warning, the search result, a redirect, and status 500 with its \<open>error\<close> and
  (when given) \<open>message\<close>.\<close>

datatype http_response =
    JobsPage jobs_response
  | UpstreamPage page_data string
  | SearchResults search_response
  | Redirect string
  | ServerError string "string option"

text \<open>The "Calculate pagination" part of the \<^verbatim>\<open>/api/jobs\<close> handler. The quotient under
  \<^verbatim>\<open>Math.ceil\<close> is exact for the length of an array (below \<open>2^32\<close>).\<close>

definition jobsResponse :: "request \<Rightarrow> job list \<Rightarrow> int \<Rightarrow> jobs_response" where
  "jobsResponse rq allJobs page =
     (let limit = 20;
          startIndex = jsNumber (jsNumber (page - 1) * limit);
          endIndex = jsNumber (page * limit);
          paginatedJobs = js_slice allJobs startIndex endIndex;
          numPages = \<lceil>real (length allJobs) / real_of_int limit\<rceil>
      in \<lparr>resp_count = length allJobs,
          resp_num_pages = numPages,
          resp_limit = limit,
          resp_page_number = page,
          resp_page_count = length paginatedJobs,
          resp_next = (if page < numPages
                       then Some (JobsPageLink (protocol rq) (host rq) (jsNumber (page + 1)))
                       else None),
          resp_previous = (if page > 1
                           then Some (JobsPageLink (protocol rq) (host rq) (jsNumber (page - 1)))
                           else None),
          resp_results = paginatedJobs\<rparr>)"

text \<open>\<^verbatim>\<open>req.url.includes("?") ? req.url.substring(req.url.indexOf("?")) : ""\<close>.\<close>

definition queryPart :: "string \<Rightarrow> string" where
  "queryPart u = dropWhile (\<lambda>c. c \<noteq> CHR ''?'') u"

text \<open>The outer \<^verbatim>\<open>catch\<close> of a handler: on 401/403 new tokens and a redirect to the same
  route, otherwise (or when the tokens cannot be had) status 500.\<close>

definition handlerFailed ::
  "string \<Rightarrow> string \<Rightarrow> env \<Rightarrow> state \<Rightarrow> request \<Rightarrow> error \<Rightarrow> state \<times> http_response" where
  "handlerFailed route failure e s rq err =
     (if authRejected err then
        (case getAuthTokens e s of
           (s1, Inr tok) \<Rightarrow> (s1, Redirect (route @ queryPart (url rq)))
         | (s1, Inl authErr) \<Rightarrow> (s1, ServerError failure (Some (errorMessage err))))
      else (s, ServerError failure (Some (errorMessage err))))"

definition api_jobs :: "env \<Rightarrow> state \<Rightarrow> request \<Rightarrow> state \<times> http_response" where
  "api_jobs e s rq =
     (let page = (case query_page rq of None \<Rightarrow> 1 | Some p \<Rightarrow> p) in
      case getOrRefresh e s of
        (s1, Inr allJobs) \<Rightarrow> (s1, JobsPage (jobsResponse rq allJobs page))
      | (s1, Inl err) \<Rightarrow>
          (let s2 = s1\<lparr>requests := requests s1 @ [GetJobsPage page]\<rparr> in
           case fallbackReply e of
             Rejected st msg \<Rightarrow>
               handlerFailed ''/api/jobs'' ''Failed to fetch jobs from CEIPAL API'' e s2 rq err
           | Reply d \<Rightarrow>
               (case d of
                  None \<Rightarrow>
                    handlerFailed ''/api/jobs'' ''Failed to fetch jobs from CEIPAL API'' e s2 rq err
                | Some pd \<Rightarrow>
                    (case data_results pd of
                       None \<Rightarrow>
                         handlerFailed ''/api/jobs'' ''Failed to fetch jobs from CEIPAL API''
                           e s2 rq err
                     | Some rs \<Rightarrow>
                         (s2, UpstreamPage pd
                           ''Could not fetch all jobs. Results may not be sorted correctly.'')))))"

text \<open>The two filters of the search. \<^verbatim>\<open>field?.toLowerCase().includes(term)\<close> for the
  text fields, \<^verbatim>\<open>zip_code?.toString().includes(term)\<close> for the postal code.\<close>

definition lowerIncludes :: "string option \<Rightarrow> string \<Rightarrow> bool" where
  "lowerIncludes field term =
     (case field of None \<Rightarrow> False | Some t \<Rightarrow> str_includes (toLowerCase t) term)"

definition textIncludes :: "string option \<Rightarrow> string \<Rightarrow> bool" where
  "textIncludes field term = (case field of None \<Rightarrow> False | Some t \<Rightarrow> str_includes t term)"

definition asciiJob :: "job \<Rightarrow> bool" where
  "asciiJob j =
     (asciiField (job_title j) \<and> asciiField (client j) \<and> asciiField (skills j)
      \<and> asciiField (city j) \<and> asciiField (country j) \<and> asciiField (zip_code j))"

definition matchesQuery :: "string \<Rightarrow> job \<Rightarrow> bool" where
  "matchesQuery searchTerm j =
     (lowerIncludes (job_title j) searchTerm \<or> lowerIncludes (client j) searchTerm
      \<or> lowerIncludes (skills j) searchTerm)"

definition matchesLocation :: "string \<Rightarrow> job \<Rightarrow> bool" where
  "matchesLocation locationTerm j =
     (lowerIncludes (city j) locationTerm \<or> lowerIncludes (country j) locationTerm
      \<or> textIncludes (zip_code j) locationTerm)"

definition filterByQuery :: "string option \<Rightarrow> job list \<Rightarrow> job list" where
  "filterByQuery query jobs =
     (case query of
        None \<Rightarrow> jobs
      | Some q \<Rightarrow> (if q = [] then jobs else filter (matchesQuery (toLowerCase q)) jobs))"

definition filterByLocation :: "string option \<Rightarrow> job list \<Rightarrow> job list" where
  "filterByLocation location jobs =
     (case location of
        None \<Rightarrow> jobs
      | Some l \<Rightarrow> (if l = [] then jobs else filter (matchesLocation (toLowerCase l)) jobs))"

definition searchResponse :: "state \<Rightarrow> request \<Rightarrow> job list \<Rightarrow> search_response" where
  "searchResponse s rq allJobs =
     (let limit = (case query_limit rq of None \<Rightarrow> 100 | Some n \<Rightarrow> n);
          filteredJobs = filterByLocation (query_location rq)
                           (filterByQuery (query_query rq) allJobs);
          limitedResults = js_slice filteredJobs 0 limit
      in \<lparr>search_count = length filteredJobs,
          search_total_count = totalJobCount s,
          search_results = limitedResults,
          search_next = (if length limitedResults < length filteredJobs then Some True else None),
          search_previous = None,
          search_num_pages = \<lceil>real (length filteredJobs) / 20\<rceil>,
          search_page_number = 1\<rparr>)"

definition api_searchjobs :: "env \<Rightarrow> state \<Rightarrow> request \<Rightarrow> state \<times> http_response" where
  "api_searchjobs e s rq =
     (if \<not> (truthy (query_query rq) \<or> truthy (query_location rq))
      then (s, Redirect ''/api/jobs'')
      else
        (case getOrRefresh e s of
           (s1, Inr allJobs) \<Rightarrow> (s1, SearchResults (searchResponse s1 rq allJobs))
         | (s1, Inl err) \<Rightarrow>
             (let s2 = s1\<lparr>requests := requests s1 @ [GetJobsPage 1]\<rparr> in
              case fallbackReply e of
                Rejected st msg \<Rightarrow>
                  handlerFailed ''/api/searchjobs'' ''Failed to search jobs from CEIPAL API''
                    e s2 rq err
              | Reply d \<Rightarrow>
                  (s2, SearchResults (searchResponse s2 rq
                         (case resultsOf d of
                            None \<Rightarrow> []
                          | Some rs \<Rightarrow> arraySort e (compareCreated (getTime e)) rs))))))"

text \<open>A route is the middleware followed by the handler.\<close>

definition route ::
  "(env \<Rightarrow> state \<Rightarrow> request \<Rightarrow> state \<times> http_response) \<Rightarrow> env \<Rightarrow> state \<Rightarrow> request
     \<Rightarrow> state \<times> http_response" where
  "route handler e s rq =
     (case ensureToken e s of
        (s1, Some err) \<Rightarrow> (s1, ServerError ''Failed to authenticate with CEIPAL API'' None)
      | (s1, None) \<Rightarrow> handler e s1 rq)"

section \<open>Example data\<close>

text \<open>A toy date parser and a few records, for the concrete runs below.\<close>

definition exampleGetTime :: "string \<Rightarrow> int option" where
  "exampleGetTime c =
     map_of [(''2024-01-01'', 1704067200000), (''2024-02-01'', 1706745600000),
             (''2024-03-01'', 1709251200000)] c"

definition exampleJob :: "string \<Rightarrow> string option \<Rightarrow> job" where
  "exampleJob title created =
     \<lparr>job_title = Some title, client = None, skills = None, city = None, country = None,
      zip_code = None, Created = created\<rparr>"

definition jobJan :: job where
  "jobJan = exampleJob ''Engineer'' (Some ''2024-01-01'')"

definition jobFeb :: job where
  "jobFeb = exampleJob ''Analyst'' (Some ''2024-02-01'')"

definition jobMar :: job where
  "jobMar = exampleJob ''Designer'' (Some ''2024-03-01'')"

definition examplePage :: "job list \<Rightarrow> int \<Rightarrow> page_data" where
  "examplePage rs n = \<lparr>data_results = Some rs, data_num_pages = Some n, data_count = Some 3\<rparr>"

text \<open>An upstream that is unreachable at every call site.\<close>

definition envOffline :: env where
  "envOffline =
     \<lparr>now = 1000, getTime = exampleGetTime, arraySort = insertionSort,
      authReply = Rejected None ''offline'', refreshReply = Rejected None ''offline'',
      firstPageReply = Rejected None ''offline'',
      pageReply = (\<lambda>p. Rejected None ''offline''), pageLatency = (\<lambda>p. 0),
      retryReply = Rejected None ''offline'', fallbackReply = Rejected None ''offline''\<rparr>"

text \<open>Page 1 reports three pages of one record each; the request for page 2 fails. The
  upstream would answer requests for further pages, with a record of their own.\<close>

definition envPartial :: env where
  "envPartial =
     envOffline
       \<lparr>firstPageReply := Reply (Some (examplePage [jobJan] 3)),
        pageReply := (\<lambda>p. if p = 3 then Reply (Some (examplePage [jobMar] 3))
                           else if p = 2 then Rejected (Some 503) ''Service Unavailable''
                           else Reply (Some (examplePage [jobFeb] 3)))\<rparr>"

text \<open>Page 1 is refused with 401; the login succeeds, the retry of page 1 is refused
  again.\<close>

definition envRefused :: env where
  "envRefused =
     envOffline
       \<lparr>firstPageReply := Rejected (Some 401) ''Unauthorized'',
        authReply := Reply (Some \<lparr>access_token = Some ''t2'', refresh_token = Some ''r2''\<rparr>),
        retryReply := Rejected (Some 401) ''Unauthorized''\<rparr>"

text \<open>A state with tokens issued at time 0 and a one-record snapshot taken at time 500.\<close>

definition stateCached :: state where
  "stateCached =
     initialState
       \<lparr>accessToken := Some ''t1'', refreshToken := Some ''r1'',
        accessTokenExpiry := Some 86400000, refreshTokenExpiry := Some 604800000,
        cachedJobs := [jobFeb], cacheTimestamp := Some 500\<rparr>"

text \<open>An upstream whose listing is empty: one page, no record. \<open>stateEmptySnapshot\<close> is
  the state a bulk fetch against it leaves behind.\<close>

definition envEmpty :: env where
  "envEmpty =
     envOffline
       \<lparr>firstPageReply :=
          Reply (Some \<lparr>data_results = Some [], data_num_pages = Some 1, data_count = None\<rparr>)\<rparr>"

definition stateEmptySnapshot :: state where
  "stateEmptySnapshot = fst (fetchAllJobsAndUpdateCache envEmpty initialState)"

text \<open>A request for page \<open>p\<close> of the job list.\<close>

definition requestPage :: "int \<Rightarrow> request" where
  "requestPage p =
     \<lparr>protocol = ''https'', host = ''jobs.example'', url = ''/api/jobs'',
      query_page = Some p, query_query = None, query_location = None, query_limit = None\<rparr>"

text \<open>Tokens whose access expiry (100) and refresh expiry (200) lie in the past of the
  clock of \<open>envOffline\<close>, and an upstream that rejects the refresh but accepts the login.\<close>

definition stateExpired :: state where
  "stateExpired = stateCached\<lparr>accessTokenExpiry := Some 100, refreshTokenExpiry := Some 200\<rparr>"

definition envReauth :: env where
  "envReauth =
     envOffline
       \<lparr>authReply := Reply (Some \<lparr>access_token = Some ''t2'', refresh_token = Some ''r2''\<rparr>)\<rparr>"

text \<open>A record located by its postal code only, a state whose cache holds it, and a search
  by location.\<close>

definition jobWestminster :: job where
  "jobWestminster = (exampleJob ''Clerk'' (Some ''2024-01-01''))\<lparr>zip_code := Some ''SW1A 1AA''\<rparr>"

definition stateWestminster :: state where
  "stateWestminster = stateCached\<lparr>cachedJobs := [jobWestminster]\<rparr>"

definition requestLocation :: "string \<Rightarrow> request" where
  "requestLocation l =
     \<lparr>protocol = ''https'', host = ''jobs.example'', url = ''/api/searchjobs'',
      query_page = None, query_query = None, query_location = Some l, query_limit = None\<rparr>"

text \<open>Page 1 is refused with 401, the login succeeds, and the retry of page 1 delivers an
  older record before a newer one.\<close>

definition envRetry :: env where
  "envRetry = envRefused\<lparr>retryReply := Reply (Some (examplePage [jobJan, jobMar] 3))\<rparr>"

text \<open>A search by text.\<close>

definition requestQuery :: "string \<Rightarrow> request" where
  "requestQuery q =
     \<lparr>protocol = ''https'', host = ''jobs.example'', url = ''/api/searchjobs'',
      query_page = None, query_query = Some q, query_location = None, query_limit = Some 1\<rparr>"

text \<open>A state whose snapshot holds three records, and two upstreams that refuse page 1
  with 401, accept the login and answer the retry of page 1: one with a single record of
  three pages, one with no record.\<close>

definition stateFull :: state where
  "stateFull = stateCached\<lparr>cachedJobs := [jobMar, jobFeb, jobJan]\<rparr>"

definition envRetryOne :: env where
  "envRetryOne = envRefused\<lparr>retryReply := Reply (Some (examplePage [jobJan] 3))\<rparr>"

definition envRetryNone :: env where
  "envRetryNone = envRefused\<lparr>retryReply := Reply (Some (examplePage [] 3))\<rparr>"

section \<open>Properties of the runtime model\<close>

lemma mset_insertSorted: "mset (insertSorted c x ys) = add_mset x (mset ys)"
  by (induction ys) auto

lemma mset_insertionSort: "mset (insertionSort c xs) = mset xs"
  by (induction xs) (auto simp: insertionSort_def mset_insertSorted)

lemma length_insertionSort: "length (insertionSort c xs) = length xs"
  using mset_insertionSort [of c xs] by (metis size_mset)

lemma set_insertionSort: "set (insertionSort c xs) = set xs"
  using mset_insertionSort [of c xs] by (metis set_mset_mset)

lemma insertionSort_Nil: "insertionSort c [] = []"
  by (simp add: insertionSort_def)

lemma insertionSort_Cons: "insertionSort c (x # xs) = insertSorted c x (insertionSort c xs)"
  by (simp add: insertionSort_def)

lemma insertSorted_successively:
  assumes anti: "\<And>a b. 0 < sortCompare c a b \<Longrightarrow> sortCompare c b a \<le> 0"
    and ys: "successively (\<lambda>a b. sortCompare c a b \<le> 0) ys"
  shows "successively (\<lambda>a b. sortCompare c a b \<le> 0) (insertSorted c x ys)"
  using ys
proof (induction ys)
  case Nil
  then show ?case by simp
next
  case (Cons y ys)
  show ?case
  proof (cases "sortCompare c x y \<le> 0")
    case True
    with Cons.prems show ?thesis by simp
  next
    case False
    then have yx: "sortCompare c y x \<le> 0" using anti [of x y] by simp
    have "successively (\<lambda>a b. sortCompare c a b \<le> 0) ys"
      using Cons.prems by (cases ys) simp_all
    then have tl: "successively (\<lambda>a b. sortCompare c a b \<le> 0) (insertSorted c x ys)"
      by (rule Cons.IH)
    show ?thesis
    proof (cases ys)
      case Nil
      with False yx show ?thesis by simp
    next
      case (Cons z zs)
      with False yx tl Cons.prems show ?thesis
        by (auto simp: successively_Cons)
    qed
  qed
qed

lemma insertionSort_successively:
  assumes anti: "\<And>a b. 0 < sortCompare c a b \<Longrightarrow> sortCompare c b a \<le> 0"
  shows "successively (\<lambda>a b. sortCompare c a b \<le> 0) (insertionSort c xs)"
  by (induction xs) (auto simp: insertionSort_Nil insertionSort_Cons intro: insertSorted_successively anti)

lemma insertSorted_filter:
  assumes "\<And>y. Q y \<Longrightarrow> Q x \<Longrightarrow> sortCompare c x y \<le> 0"
  shows "filter Q (insertSorted c x ys) = filter Q (x # ys)"
  using assms by (induction ys) auto

lemma insertionSort_filter:
  assumes "\<And>x y. Q x \<Longrightarrow> Q y \<Longrightarrow> sortCompare c x y \<le> 0"
  shows "filter Q (insertionSort c xs) = filter Q xs"
proof (induction xs)
  case Nil
  then show ?case by (simp add: insertionSort_Nil)
next
  case (Cons x xs)
  have "filter Q (insertSorted c x (insertionSort c xs)) = filter Q (x # insertionSort c xs)"
    by (rule insertSorted_filter) (use assms in blast)
  with Cons show ?case by (simp add: insertionSort_Cons)
qed

lemma createdTime_truthy: "createdTime parse j = Some t \<Longrightarrow> truthy (Created j)"
  by (auto simp: createdTime_def truthy_def split: option.splits if_splits)

lemma sortCompare_created:
  "sortCompare (compareCreated parse) a b =
     (case createdTime parse a of
        None \<Rightarrow> 0
      | Some ta \<Rightarrow> (case createdTime parse b of None \<Rightarrow> 0 | Some tb \<Rightarrow> tb - ta))"
  by (auto simp: sortCompare_def compareCreated_def createdTime_def truthy_def
           split: option.splits if_splits)

lemma fold_update_nth:
  "set is \<subseteq> {0..<length xs} \<Longrightarrow>
     length (fold (\<lambda>i vs. vs[i := g i]) is xs) = length xs \<and>
     (\<forall>j < length xs. fold (\<lambda>i vs. vs[i := g i]) is xs ! j = (if j \<in> set is then g j else xs ! j))"
proof (induction "is" arbitrary: xs rule: rev_induct)
  case Nil
  then show ?case by simp
next
  case (snoc i "is")
  then show ?case by (auto simp: nth_list_update)
qed

lemma promiseAll_eq: "promiseAll latency ps f = map (\<lambda>p. Some (f p)) ps"
proof -
  let ?ord = "settleOrder latency ps"
  have s: "set ?ord = {0..<length ps}" by (simp add: settleOrder_def)
  have "length (promiseAll latency ps f) = length ps \<and>
        (\<forall>j < length ps. promiseAll latency ps f ! j = Some (f (ps ! j)))"
    using fold_update_nth [of ?ord "replicate (length ps) None" "\<lambda>i. Some (f (ps ! i))"] s
    by (simp add: promiseAll_def)
  then show ?thesis by (intro nth_equalityI) auto
qed

lemma combineResults_fulfilled:
  "combineResults acc (map Some ds) = Inr (acc @ concat (map recordsOf ds))"
  by (induction ds arbitrary: acc) (auto simp: recordsOf_def split: option.splits)

lemma recordsOf_caught: "recordsOf (caught r) = pageRecords r"
  by (simp add: caught_def pageRecords_def recordsOf_def resultsOf_def emptyPage_def
           split: reply.splits option.splits)

lemma recordsOf_first: "recordsOf d = pageRecords (Reply d)"
  by (simp add: pageRecords_def recordsOf_def resultsOf_def split: option.splits)

lemma newTotalPages_lastPage: "newTotalPages s d = lastPage s (Reply d)"
  by (simp add: newTotalPages_def lastPage_def numberOf_def truthyNum_def split: option.splits)

lemma newTotalPages_requests [simp]:
  "newTotalPages (s\<lparr>requests := r\<rparr>) d = newTotalPages s d"
  by (simp add: newTotalPages_def split: option.splits)

lemma newTotalJobCount_requests [simp]:
  "newTotalJobCount (s\<lparr>requests := r\<rparr>) d = newTotalJobCount s d"
  by (simp add: newTotalJobCount_def split: option.splits)

lemma fetchAllTry_Reply:
  assumes "firstPageReply e = Reply d"
  shows "fetchAllTry e s =
     (s\<lparr>totalPages := newTotalPages s d, totalJobCount := newTotalJobCount s d,
        requests := requests s @ GetJobsPage 1 # map GetJobsPage [2 .. newTotalPages s d],
        cachedJobs := arraySort e (compareCreated (getTime e)) (assembled e s d),
        cacheTimestamp := Some (now e)\<rparr>,
      Inr (arraySort e (compareCreated (getTime e)) (assembled e s d)))"
proof -
  have "combineResults (recordsOf d)
          (promiseAll (pageLatency e) [2 .. newTotalPages s d] (\<lambda>p. caught (pageReply e p)))
        = Inr (assembled e s d)"
    using combineResults_fulfilled
      [of "recordsOf d" "map (\<lambda>p. caught (pageReply e p)) [2 .. newTotalPages s d]"]
    by (simp add: promiseAll_eq assembled_def recordsOf_caught comp_def)
  then show ?thesis
    using assms by (simp add: fetchAllTry_def Let_def)
qed

lemma fetchAllTry_Rejected:
  assumes "firstPageReply e = Rejected st msg"
  shows "fetchAllTry e s = (s\<lparr>requests := requests s @ [GetJobsPage 1]\<rparr>, Inl (AxiosError st msg))"
  using assms by (simp add: fetchAllTry_def)

lemma fetchAll_Reply:
  assumes "firstPageReply e = Reply d"
  shows "fetchAllJobsAndUpdateCache e s = fetchAllTry e s"
  by (simp add: fetchAllJobsAndUpdateCache_def fetchAllTry_Reply [OF assms])

section \<open>Properties of the bulk fetch\<close>

lemma getAuthTokens_cache:
  "cachedJobs (fst (getAuthTokens e s)) = cachedJobs s \<and>
   cacheTimestamp (fst (getAuthTokens e s)) = cacheTimestamp s"
  by (simp add: getAuthTokens_def Let_def split: reply.splits option.splits)

lemma retryFirstPage_cache:
  "(snd (retryFirstPage e s err) = Inl err' \<longrightarrow>
      cachedJobs (fst (retryFirstPage e s err)) = cachedJobs s \<and>
      cacheTimestamp (fst (retryFirstPage e s err)) = cacheTimestamp s) \<and>
   (snd (retryFirstPage e s err) = Inr js \<longrightarrow>
      cachedJobs (fst (retryFirstPage e s err)) = js \<and>
      cacheTimestamp (fst (retryFirstPage e s err)) = Some (now e))"
  by (auto simp: retryFirstPage_def Let_def split: reply.splits option.splits)

lemma fetchAll_Rejected:
  assumes "firstPageReply e = Rejected st msg"
  shows "fetchAllJobsAndUpdateCache e s =
     (if authRejected (AxiosError st msg) then
        (case getAuthTokens e (s\<lparr>requests := requests s @ [GetJobsPage 1]\<rparr>) of
           (s2, Inl authErr) \<Rightarrow> (s2, Inl authErr)
         | (s2, Inr tok) \<Rightarrow> retryFirstPage e s2 (AxiosError st msg))
      else (s\<lparr>requests := requests s @ [GetJobsPage 1]\<rparr>, Inl (AxiosError st msg)))"
  by (simp add: fetchAllJobsAndUpdateCache_def fetchAllTry_Rejected [OF assms])

lemma fetchAll_cache:
  "(snd (fetchAllJobsAndUpdateCache e s) = Inl err \<longrightarrow>
      cachedJobs (fst (fetchAllJobsAndUpdateCache e s)) = cachedJobs s \<and>
      cacheTimestamp (fst (fetchAllJobsAndUpdateCache e s)) = cacheTimestamp s) \<and>
   (snd (fetchAllJobsAndUpdateCache e s) = Inr js \<longrightarrow>
      cachedJobs (fst (fetchAllJobsAndUpdateCache e s)) = js \<and>
      cacheTimestamp (fst (fetchAllJobsAndUpdateCache e s)) = Some (now e))"
proof (cases "firstPageReply e")
  case (Reply d)
  show ?thesis
    by (simp add: fetchAll_Reply [OF Reply] fetchAllTry_Reply [OF Reply])
next
  case (Rejected st msg)
  let ?s1 = "s\<lparr>requests := requests s @ [GetJobsPage 1]\<rparr>"
  obtain s2 r where g: "getAuthTokens e ?s1 = (s2, r)" by (cases "getAuthTokens e ?s1")
  have c2: "cachedJobs s2 = cachedJobs s \<and> cacheTimestamp s2 = cacheTimestamp s"
    using getAuthTokens_cache [of e ?s1] g by simp
  show ?thesis
    using c2 retryFirstPage_cache [of e s2 "AxiosError st msg" err js]
    by (cases r) (auto simp: fetchAll_Rejected [OF Rejected] g)
qed

lemma upto_2_3: "[2 .. 3::int] = [2, 3]"
  by (simp add: upto_rec1)

lemma fetchAll_envRefused:
  "snd (fetchAllJobsAndUpdateCache envRefused stateCached) =
     Inl (AxiosError (Some 401) ''Unauthorized'')"
  by (simp add: fetchAllJobsAndUpdateCache_def fetchAllTry_def envRefused_def envOffline_def
        authRejected_def getAuthTokens_def tokenOf_def truthy_def retryFirstPage_def Let_def)

lemma getAuthTokens_latency: "getAuthTokens (e\<lparr>pageLatency := l\<rparr>) s = getAuthTokens e s"
  by (simp add: getAuthTokens_def Let_def split: reply.splits option.splits)

lemma retryFirstPage_latency:
  "retryFirstPage (e\<lparr>pageLatency := l\<rparr>) s err = retryFirstPage e s err"
  by (simp add: retryFirstPage_def Let_def split: reply.splits option.splits)

lemma assembled_latency: "assembled (e\<lparr>pageLatency := l\<rparr>) s d = assembled e s d"
  by (simp add: assembled_def)

lemma fetchAll_latency:
  "fetchAllJobsAndUpdateCache (e\<lparr>pageLatency := l\<rparr>) s = fetchAllJobsAndUpdateCache e s"
proof (cases "firstPageReply e")
  case (Reply d)
  then have r: "firstPageReply (e\<lparr>pageLatency := l\<rparr>) = Reply d" by simp
  show ?thesis
    by (simp add: fetchAll_Reply [OF r] fetchAll_Reply [OF Reply]
          fetchAllTry_Reply [OF r] fetchAllTry_Reply [OF Reply] assembled_latency)
next
  case (Rejected st msg)
  then have r: "firstPageReply (e\<lparr>pageLatency := l\<rparr>) = Rejected st msg" by simp
  show ?thesis
    by (simp add: fetchAll_Rejected [OF r] fetchAll_Rejected [OF Rejected]
          getAuthTokens_latency retryFirstPage_latency)
qed

lemma settleOrder_example:
  "settleOrder (\<lambda>p. if p = 2 then 5 else 0) [2, 3::int] = [1, 0]
   \<and> settleOrder (\<lambda>p. 0) [2, 3::int] = [0, 1]"
  by (simp add: settleOrder_def upt_rec numeral_2_eq_2)

lemma isCacheValid_iff:
  "isCacheValid s t \<longleftrightarrow>
     cachedJobs s \<noteq> [] \<and> (\<exists>c. cacheTimestamp s = Some c \<and> c \<noteq> 0 \<and> t - c < 30 * 60 * 1000)"
  by (auto simp: isCacheValid_def truthyNum_def toNumber_def CACHE_DURATION_def
           split: option.splits)

lemma fetchAll_requests:
  "\<exists>more. requests (fst (fetchAllJobsAndUpdateCache e s)) = requests s @ GetJobsPage 1 # more"
proof (cases "firstPageReply e")
  case (Reply d)
  show ?thesis by (simp add: fetchAll_Reply [OF Reply] fetchAllTry_Reply [OF Reply])
next
  case (Rejected st msg)
  show ?thesis
    by (auto simp: fetchAll_Rejected [OF Rejected] getAuthTokens_def retryFirstPage_def Let_def
             split: reply.splits option.splits)
qed

lemma fetchAll_envEmpty:
  "fetchAllJobsAndUpdateCache envEmpty initialState = (stateEmptySnapshot, Inr [])
   \<and> fetchAllJobsAndUpdateCache (envEmpty\<lparr>now := 1001\<rparr>) initialState
       = (stateEmptySnapshot\<lparr>cacheTimestamp := Some 1001\<rparr>, Inr [])
   \<and> cachedJobs stateEmptySnapshot = []
   \<and> cacheTimestamp stateEmptySnapshot = Some 1000"
proof -
  have p: "firstPageReply envEmpty =
             Reply (Some \<lparr>data_results = Some [], data_num_pages = Some 1, data_count = None\<rparr>)"
    by (simp add: envEmpty_def)
  have q: "firstPageReply (envEmpty\<lparr>now := 1001\<rparr>) =
             Reply (Some \<lparr>data_results = Some [], data_num_pages = Some 1, data_count = None\<rparr>)"
    by (simp add: envEmpty_def)
  have n: "newTotalPages initialState
             (Some \<lparr>data_results = Some [], data_num_pages = Some 1, data_count = None\<rparr>) = 1"
    by (simp add: newTotalPages_def numberOf_def truthyNum_def)
  have a: "assembled e initialState
             (Some \<lparr>data_results = Some [], data_num_pages = Some 1, data_count = None\<rparr>) = []" for e
    by (simp add: assembled_def n recordsOf_def resultsOf_def)
  have t: "now envEmpty = 1000" "now (envEmpty\<lparr>now := 1001\<rparr>) = 1001"
          "getTime (envEmpty\<lparr>now := 1001\<rparr>) = getTime envEmpty"
          "arraySort envEmpty = insertionSort"
          "arraySort (envEmpty\<lparr>now := 1001\<rparr>) = insertionSort"
    by (simp_all add: envEmpty_def envOffline_def)
  have f1: "fetchAllJobsAndUpdateCache envEmpty initialState =
              (initialState\<lparr>totalPages := 1,
                 totalJobCount := newTotalJobCount initialState
                   (Some \<lparr>data_results = Some [], data_num_pages = Some 1, data_count = None\<rparr>),
                 requests := requests initialState @ [GetJobsPage 1],
                 cachedJobs := [], cacheTimestamp := Some 1000\<rparr>, Inr [])"
    by (simp add: fetchAll_Reply [OF p] fetchAllTry_Reply [OF p] a insertionSort_Nil n t)
  have f2: "fetchAllJobsAndUpdateCache (envEmpty\<lparr>now := 1001\<rparr>) initialState =
              (initialState\<lparr>totalPages := 1,
                 totalJobCount := newTotalJobCount initialState
                   (Some \<lparr>data_results = Some [], data_num_pages = Some 1, data_count = None\<rparr>),
                 requests := requests initialState @ [GetJobsPage 1],
                 cachedJobs := [], cacheTimestamp := Some 1001\<rparr>, Inr [])"
    by (simp add: fetchAll_Reply [OF q] fetchAllTry_Reply [OF q] a insertionSort_Nil n t)
  show ?thesis
    unfolding stateEmptySnapshot_def f1 f2 by simp
qed

lemma getOrRefresh_valid:
  "isCacheValid s (now e) \<Longrightarrow> getOrRefresh e s = (s, Inr (cachedJobs s))"
  by (simp add: getOrRefresh_def)

lemma js_slice_nonneg:
  assumes "0 \<le> a" "a \<le> b"
  shows "js_slice xs a b = take (nat (b - a)) (drop (nat a) xs)"
proof (cases "a \<le> int (length xs)")
  case True
  show ?thesis
  proof (cases "b \<le> int (length xs)")
    case True
    with assms \<open>a \<le> int (length xs)\<close> show ?thesis
      by (simp add: js_slice_def Let_def min_def)
  next
    case False
    with assms True show ?thesis
      by (simp add: js_slice_def Let_def min_def)
  qed
next
  case False
  with assms show ?thesis
    by (simp add: js_slice_def Let_def min_def)
qed

lemma page_slice:
  assumes "1 \<le> p"
  shows "js_slice xs ((p - 1) * 20) (p * 20) = take 20 (drop (nat ((p - 1) * 20)) xs)"
  using assms js_slice_nonneg [of "(p - 1) * 20" "p * 20" xs] by (simp add: algebra_simps)

lemma beyond_last_page:
  assumes "\<lceil>real (length xs) / 20\<rceil> < p"
  shows "drop (nat ((p - 1) * 20)) xs = []"
proof -
  have "real (length xs) / 20 \<le> real_of_int \<lceil>real (length xs) / 20\<rceil>"
    by (rule le_of_int_ceiling)
  also have "\<dots> \<le> real_of_int (p - 1)" using assms by simp
  finally have "real (length xs) \<le> real_of_int ((p - 1) * 20)" by simp
  then have "int (length xs) \<le> (p - 1) * 20" by linarith
  then show ?thesis by simp
qed

lemma ceiling_example: "\<lceil>real (45::nat) / 20\<rceil> = 3"
  by (simp add: ceiling_eq_iff)

lemma refresh_failed_server:
  assumes "refreshReply e = Rejected st msg \<or> (refreshReply e = Reply d \<and> tokenOf d = None)"
  shows "refreshAccessToken_server e s =
           refreshFailed_server e (s\<lparr>requests := requests s @ [PostRefreshToken]\<rparr>)"
  using assms by (auto simp: refreshAccessToken_server_def)

lemma refresh_failed_current:
  assumes "refreshReply e = Rejected st msg \<or> (refreshReply e = Reply d \<and> tokenOf d = None)"
  shows "refreshAccessToken e s =
           getAuthTokens e (s\<lparr>requests := requests s @ [PostRefreshToken]\<rparr>)"
  using assms by (auto simp: refreshAccessToken_def)

lemma getAuthTokens_envReauth:
  "getAuthTokens envReauth s =
     (s\<lparr>requests := requests s @ [PostCreateAuthtoken],
        accessToken := Some ''t2'', refreshToken := Some ''r2'',
        accessTokenExpiry := Some 86401000, refreshTokenExpiry := Some 604801000\<rparr>,
      Inr ''t2'')"
  by (simp add: getAuthTokens_def envReauth_def envOffline_def tokenOf_def truthy_def
        refreshTokenOf_def)

lemma envReauth_facts:
  "refreshReply envReauth = Rejected None ''offline''" "now envReauth = 1000"
  "toNumber (refreshTokenExpiry stateExpired) = 200"
  "toNumber (refreshTokenExpiry stateCached) = 604800000"
  by (simp_all add: envReauth_def envOffline_def stateExpired_def stateCached_def toNumber_def)

lemma ensureToken_decision_table:
  assumes "truthy (accessToken s)" "truthy (refreshToken s)"
  shows "now e \<le> toNumber (accessTokenExpiry s) \<Longrightarrow> now e \<le> toNumber (refreshTokenExpiry s)
           \<Longrightarrow> ensureToken e s = (s, None)"
    and "toNumber (accessTokenExpiry s) < now e \<Longrightarrow> now e < toNumber (refreshTokenExpiry s)
           \<Longrightarrow> ensureToken e s = authFailed (refreshAccessToken e s)"
    and "toNumber (refreshTokenExpiry s) < now e
           \<Longrightarrow> ensureToken e s = authFailed (getAuthTokens e s)"
  using assms by (simp_all add: ensureToken_def ensureToken_with_def)

lemma ensureToken_no_tokens:
  "\<not> (truthy (accessToken s) \<and> truthy (refreshToken s))
     \<Longrightarrow> ensureToken e s = authFailed (getAuthTokens e s)"
  by (simp add: ensureToken_def ensureToken_with_def)

lemma toLowerCase_example:
  "toLowerCase ''SW1A'' = ''sw1a'' \<and> toLowerCase ''SW1A 1AA'' = ''sw1a 1aa''"
  by (simp add: toLowerCase_def lowerChar_def)

lemma js_slice_limit:
  "0 \<le> limit \<Longrightarrow> js_slice xs 0 limit = take (nat limit) xs"
  using js_slice_nonneg [of 0 limit xs] by simp

lemma search_filters:
  "set (filterByLocation l (filterByQuery q allJobs)) =
     {j \<in> set allJobs.
        (case q of None \<Rightarrow> True | Some t \<Rightarrow> t = [] \<or> matchesQuery (toLowerCase t) j)
        \<and> (case l of None \<Rightarrow> True | Some t \<Rightarrow> t = [] \<or> matchesLocation (toLowerCase t) j)}"
  by (auto simp: filterByLocation_def filterByQuery_def split: option.splits)

lemma searchResponse_properties:
  assumes "query_limit rq = None \<or> (\<exists>n. query_limit rq = Some n \<and> 0 \<le> n)"
  shows "set (search_results (searchResponse s rq allJobs))
           \<subseteq> set (filterByLocation (query_location rq) (filterByQuery (query_query rq) allJobs))"
    and "int (length (search_results (searchResponse s rq allJobs)))
           \<le> (case query_limit rq of None \<Rightarrow> 100 | Some n \<Rightarrow> n)"
    and "search_count (searchResponse s rq allJobs)
           = length (filterByLocation (query_location rq) (filterByQuery (query_query rq) allJobs))"
    and "search_next (searchResponse s rq allJobs)
           = (if length (search_results (searchResponse s rq allJobs))
                 < search_count (searchResponse s rq allJobs) then Some True else None)"
  using assms
  by (auto simp: searchResponse_def Let_def js_slice_limit dest: in_set_takeD)

lemma example_times:
  "createdTime exampleGetTime jobJan = Some 1704067200000"
  "createdTime exampleGetTime jobFeb = Some 1706745600000"
  "createdTime exampleGetTime jobMar = Some 1709251200000"
  by (simp_all add: createdTime_def exampleGetTime_def jobJan_def jobFeb_def jobMar_def
        exampleJob_def)

lemma fetchAll_envRetry:
  "snd (fetchAllJobsAndUpdateCache envRetry stateCached) = Inr [jobJan, jobMar]
   \<and> cachedJobs (fst (fetchAllJobsAndUpdateCache envRetry stateCached)) = [jobJan, jobMar]
   \<and> cacheTimestamp (fst (fetchAllJobsAndUpdateCache envRetry stateCached)) = Some 1000"
  by (simp add: fetchAllJobsAndUpdateCache_def fetchAllTry_def envRetry_def envRefused_def
        envOffline_def authRejected_def getAuthTokens_def tokenOf_def truthy_def
        retryFirstPage_def Let_def resultsOf_def examplePage_def)

lemma search_example:
  "search_results (searchResponse stateCached (requestQuery ''ENGINEER'')
      [jobFeb, jobJan, jobJan]) = [jobJan]
   \<and> search_count (searchResponse stateCached (requestQuery ''ENGINEER'')
        [jobFeb, jobJan, jobJan]) = 2
   \<and> query_limit (requestQuery ''ENGINEER'') = Some 1
   \<and> query_query (requestQuery ''ENGINEER'') = Some ''ENGINEER''"
  by (simp add: searchResponse_def Let_def requestQuery_def filterByLocation_def
        filterByQuery_def matchesQuery_def lowerIncludes_def toLowerCase_def lowerChar_def
        jobJan_def jobFeb_def exampleJob_def js_slice_def)

lemma bitLength_bounds:
  "0 < n \<Longrightarrow> 2 ^ (bitLength n - 1) \<le> n \<and> n < 2 ^ bitLength n"
proof (induction n rule: bitLength.induct)
  case (1 n)
  have b: "bitLength n = Suc (bitLength (n div 2))"
    using "1.prems" bitLength.simps [of n] by simp
  show ?case
  proof (cases "n div 2 = 0")
    case True
    with "1.prems" have "n = 1" by (simp add: div_eq_0_iff)
    then show ?thesis using bitLength.simps [of 0] bitLength.simps [of 1] by simp
  next
    case False
    with "1.IH" "1.prems"
    have ih: "2 ^ (bitLength (n div 2) - 1) \<le> n div 2 \<and> n div 2 < 2 ^ bitLength (n div 2)"
      by simp
    have pos: "0 < bitLength (n div 2)"
      using False bitLength.simps [of "n div 2"] by simp
    have e1: "(2::nat) ^ (bitLength n - 1) = 2 * 2 ^ (bitLength (n div 2) - 1)"
      using pos b by (cases "bitLength (n div 2)") simp_all
    have e2: "(2::nat) ^ bitLength n = 2 * 2 ^ bitLength (n div 2)" using b by simp
    show ?thesis unfolding e1 e2 using ih by linarith
  qed
qed

lemma bitLength_eqI:
  assumes "2 ^ k \<le> n" "n < 2 ^ Suc k"
  shows "bitLength n = Suc k"
proof -
  have pos: "0 < n" using assms(1) by (metis gr0I not_less zero_less_numeral zero_less_power)
  have lo: "2 ^ (bitLength n - 1) \<le> n" and hi: "n < 2 ^ bitLength n"
    using bitLength_bounds [OF pos] by simp_all
  have "(2::nat) ^ k < 2 ^ bitLength n" using assms(1) hi by linarith
  then have a: "k < bitLength n"
    by (rule power_less_imp_less_exp [where a = "2::nat", rotated]) simp
  have "(2::nat) ^ (bitLength n - 1) < 2 ^ Suc k" using lo assms(2) by linarith
  then have "bitLength n - 1 < Suc k"
    by (rule power_less_imp_less_exp [where a = "2::nat", rotated]) simp
  with a show ?thesis by linarith
qed

lemma roundToDouble_small: "n < 2 ^ 53 \<Longrightarrow> roundToDouble n = n"
  by (simp add: roundToDouble_def)

lemma roundToDouble_lower:
  assumes "2 ^ 53 \<le> n"
  shows "2 ^ 53 \<le> roundToDouble n"
proof -
  have pos: "0 < n" using assms by (simp add: order.strict_trans2 [of 0 "2 ^ 53" n])
  have lo: "2 ^ (bitLength n - 1) \<le> n" and hi: "n < 2 ^ bitLength n"
    using bitLength_bounds [OF pos] by simp_all
  have "(2::nat) ^ 53 < 2 ^ bitLength n" using assms hi by linarith
  then have b: "53 < bitLength n"
    by (rule power_less_imp_less_exp [where a = "2::nat", rotated]) simp
  define u :: nat where "u = 2 ^ (bitLength n - 53)"
  have "bitLength n - 1 = 52 + (bitLength n - 53)" using b by simp
  then have split: "(2::nat) ^ (bitLength n - 1) = 2 ^ 52 * u"
    unfolding u_def by (simp only: power_add)
  have upos: "0 < u" by (simp add: u_def)
  have q: "2 ^ 52 \<le> n div u"
    using lo split upos by (simp add: less_eq_div_iff_mult_less_eq)
  have "(2::nat) ^ 53 \<le> 2 ^ (bitLength n - 1)"
    by (rule power_increasing) (use b in simp_all)
  also have "\<dots> = 2 ^ 52 * u" by (rule split)
  also have "\<dots> \<le> (n div u) * u" using q by simp
  finally have base: "2 ^ 53 \<le> (n div u) * u" .
  then have "2 ^ 53 \<le> (n div u + 1) * u" by (simp add: trans_le_add1)
  with base show ?thesis
    using assms by (simp add: roundToDouble_def Let_def u_def [symmetric])
qed

lemma jsNumber_exact: "0 \<le> i \<Longrightarrow> i < 2 ^ 53 \<Longrightarrow> jsNumber i = i"
  by (simp add: jsNumber_def roundToDouble_small nat_less_iff)

lemma jsNumber_lower:
  assumes "0 \<le> m" "m \<le> 2 ^ 53" "m \<le> i"
  shows "m \<le> jsNumber i"
proof (cases "i < 2 ^ 53")
  case True
  with assms show ?thesis by (simp add: jsNumber_exact)
next
  case False
  then have "2 ^ 53 \<le> nat i" by (simp add: le_nat_iff)
  then have "2 ^ 53 \<le> roundToDouble (nat i)" by (rule roundToDouble_lower)
  then have "(2::int) ^ 53 \<le> int (roundToDouble (nat i))"
    by (metis of_nat_le_iff of_nat_numeral of_nat_power)
  with False assms show ?thesis by (simp add: jsNumber_def)
qed

lemma jsNumber_example: "jsNumber 9007199254740993 = 9007199254740992"
proof -
  have "bitLength 9007199254740993 = Suc 53"
    by (rule bitLength_eqI) simp_all
  then show ?thesis
    by (simp add: jsNumber_def roundToDouble_def Let_def)
qed

lemma js_slice_beyond:
  assumes "int (length xs) \<le> a" "int (length xs) \<le> b"
  shows "js_slice xs a b = []"
  using assms by (simp add: js_slice_def Let_def min_def)

lemma page_indices:
  assumes "1 \<le> p" "length xs < 2 ^ 32"
  shows "js_slice xs (jsNumber (jsNumber (p - 1) * 20)) (jsNumber (p * 20))
           = take 20 (drop (nat ((p - 1) * 20)) xs)"
proof (cases "p \<le> 2 ^ 48")
  case True
  have a: "jsNumber (p - 1) = p - 1"
    using assms(1) True by (intro jsNumber_exact) simp_all
  have b: "jsNumber ((p - 1) * 20) = (p - 1) * 20"
    using assms(1) True by (intro jsNumber_exact) simp_all
  have c: "jsNumber (p * 20) = p * 20"
    using assms(1) True by (intro jsNumber_exact) simp_all
  show ?thesis
    unfolding a b c by (rule page_slice [OF assms(1)])
next
  case False
  have len: "int (length xs) < 2 ^ 32" using assms(2) by simp
  have "2 ^ 48 \<le> jsNumber (p - 1)"
    using False by (intro jsNumber_lower) simp_all
  then have "2 ^ 32 \<le> jsNumber (p - 1) * 20" by simp
  then have s: "2 ^ 32 \<le> jsNumber (jsNumber (p - 1) * 20)"
    by (intro jsNumber_lower) simp_all
  have "2 ^ 32 \<le> p * 20" using False by simp
  then have f: "2 ^ 32 \<le> jsNumber (p * 20)"
    by (intro jsNumber_lower) simp_all
  have "js_slice xs (jsNumber (jsNumber (p - 1) * 20)) (jsNumber (p * 20)) = []"
    using s f len by (intro js_slice_beyond) linarith+
  moreover have "int (length xs) \<le> (p - 1) * 20" using False len by simp
  then have "drop (nat ((p - 1) * 20)) xs = []" by simp
  ultimately show ?thesis by simp
qed

lemma num_pages_bound: "\<lceil>real n / 20\<rceil> \<le> int n"
  by (simp add: ceiling_le_iff)

lemma jsNumber_small_examples:
  "jsNumber 1 = 1" "jsNumber 2 = 2" "jsNumber 3 = 3" "jsNumber 4 = 4"
  by (simp_all add: jsNumber_exact)

lemma upto_2_3_pages: "map GetJobsPage [2 .. 3] = [GetJobsPage 2, GetJobsPage 3]"
  by (simp add: upto_2_3)

lemma envRefused_login:
  "getAuthTokens envRefused s =
     (s\<lparr>requests := requests s @ [PostCreateAuthtoken],
        accessToken := Some ''t2'', refreshToken := Some ''r2'',
        accessTokenExpiry := Some 86401000, refreshTokenExpiry := Some 604801000\<rparr>,
      Inr ''t2'')"
  by (simp add: getAuthTokens_def envRefused_def envOffline_def tokenOf_def truthy_def
        refreshTokenOf_def)

lemma getAuthTokens_retryReply:
  "getAuthTokens (e\<lparr>retryReply := r\<rparr>) s = getAuthTokens e s"
  by (simp add: getAuthTokens_def Let_def split: reply.splits option.splits)

lemma fetchAll_retry:
  assumes "firstPageReply e = Rejected (Some 401) msg"
    and "getAuthTokens e (s\<lparr>requests := requests s @ [GetJobsPage 1]\<rparr>) = (s2, Inr tok)"
    and "retryReply e = Reply (Some pd)" and "data_results pd = Some rs"
  shows "fetchAllJobsAndUpdateCache e s =
           (s2\<lparr>requests := requests s2 @ [GetJobsPage 1],
               cachedJobs := rs, cacheTimestamp := Some (now e)\<rparr>, Inr rs)"
  using assms
  by (simp add: fetchAll_Rejected [OF assms(1)] authRejected_def retryFirstPage_def Let_def
        resultsOf_def)

lemma ascii_example:
  "asciiField (query_query (requestQuery ''ENGINEER''))"
  "asciiField (query_location (requestQuery ''ENGINEER''))"
  "list_all asciiJob [jobFeb, jobJan, jobJan]"
  by (simp_all add: asciiField_def asciiText_def asciiJob_def requestQuery_def jobJan_def
        jobFeb_def exampleJob_def)

section \<open>The claims\<close>

text \<open>
  Claim C1. When the request for page 1 is answered, the bulk fetch succeeds. It requests
  page 1 and then exactly the pages from 2 to the last page (\<open>lastPage\<close>: the
  \<^verbatim>\<open>num_pages\<close> page 1 reports, or the stored \<^verbatim>\<open>totalPages\<close> when it reports none), and the
  list it returns, which is also the snapshot it publishes in \<open>cachedJobs\<close>, holds exactly
  the records of page 1 and of every further page whose request succeeded: a failed page
  contributes no record (\<open>pageRecords\<close> of a rejection is empty), and the size of the
  snapshot is the sum of the sizes. Of the runtime's sort only that it permutes the array
  is used. The bulk fetch fails only when the request for page 1 was rejected. The bulk
  fetch of \<^verbatim>\<open>src/server.js\<close> behaves the same when page 1 is answered, and it too fails only
  when the request for page 1 was rejected.
\<close>

theorem bulk_fetch_partial_failure:
  "(firstPageReply e = Reply d \<and> (\<forall>c xs. mset (arraySort e c xs) = mset xs) \<longrightarrow>
      (\<exists>allJobs. snd (fetchAllJobsAndUpdateCache e s) = Inr allJobs
         \<and> cachedJobs (fst (fetchAllJobsAndUpdateCache e s)) = allJobs
         \<and> cacheTimestamp (fst (fetchAllJobsAndUpdateCache e s)) = Some (now e)
         \<and> totalPages (fst (fetchAllJobsAndUpdateCache e s)) = lastPage s (firstPageReply e)
         \<and> requests (fst (fetchAllJobsAndUpdateCache e s))
             = requests s @ GetJobsPage 1 # map GetJobsPage [2 .. lastPage s (firstPageReply e)]
         \<and> mset allJobs =
             mset (pageRecords (firstPageReply e))
             + (\<Sum>p\<leftarrow>[2 .. lastPage s (firstPageReply e)]. mset (pageRecords (pageReply e p)))
         \<and> length allJobs =
             length (pageRecords (firstPageReply e))
             + (\<Sum>p\<leftarrow>[2 .. lastPage s (firstPageReply e)]. length (pageRecords (pageReply e p)))))
   \<and> (snd (fetchAllJobsAndUpdateCache e s) = Inl err \<longrightarrow>
        (\<exists>st msg. firstPageReply e = Rejected st msg))
   \<and> (firstPageReply e = Reply d \<longrightarrow>
        fetchAllJobsAndUpdateCache_server e s = fetchAllJobsAndUpdateCache e s)
   \<and> (snd (fetchAllJobsAndUpdateCache_server e s) = Inl err \<longrightarrow>
        (\<exists>st msg. firstPageReply e = Rejected st msg))"
proof (cases "firstPageReply e")
  case (Reply d')
  let ?last = "lastPage s (Reply d')"
  let ?sorted = "arraySort e (compareCreated (getTime e)) (assembled e s d')"
  have a: "assembled e s d' =
             pageRecords (Reply d') @ concat (map (\<lambda>p. pageRecords (pageReply e p)) [2 .. ?last])"
    by (simp add: assembled_def recordsOf_first newTotalPages_lastPage)
  have f: "fetchAllJobsAndUpdateCache e s =
     (s\<lparr>totalPages := ?last, totalJobCount := newTotalJobCount s d',
        requests := requests s @ GetJobsPage 1 # map GetJobsPage [2 .. ?last],
        cachedJobs := ?sorted, cacheTimestamp := Some (now e)\<rparr>,
      Inr ?sorted)"
    by (simp add: fetchAll_Reply [OF Reply] fetchAllTry_Reply [OF Reply] newTotalPages_lastPage)
  have m: "(\<forall>c xs. mset (arraySort e c xs) = mset xs) \<Longrightarrow>
        mset ?sorted = mset (pageRecords (Reply d'))
          + (\<Sum>p\<leftarrow>[2 .. ?last]. mset (pageRecords (pageReply e p)))"
    by (simp add: a mset_concat comp_def)
  have l: "(\<forall>c xs. mset (arraySort e c xs) = mset xs) \<Longrightarrow>
        length ?sorted = length (pageRecords (Reply d'))
          + (\<Sum>p\<leftarrow>[2 .. ?last]. length (pageRecords (pageReply e p)))"
  proof -
    assume p: "\<forall>c xs. mset (arraySort e c xs) = mset xs"
    have "length ?sorted = size (mset ?sorted)" by simp
    also have "\<dots> = size (mset (assembled e s d'))" using p by simp
    also have "\<dots> = length (assembled e s d')" by simp
    finally show ?thesis by (simp add: a length_concat comp_def)
  qed
  show ?thesis
    using m l
    by (auto simp: f Reply fetchAllJobsAndUpdateCache_server_def fetchAllTry_Reply [OF Reply]
          newTotalPages_lastPage)
next
  case (Rejected st msg)
  then show ?thesis by simp
qed

theorem bulk_fetch_partial_failure_witness:
  "firstPageReply envPartial = Reply (Some (examplePage [jobJan] 3))
   \<and> totalPages initialState = 16
   \<and> pageRecords (pageReply envPartial 4) = [jobFeb]
   \<and> (\<exists>allJobs. snd (fetchAllJobsAndUpdateCache envPartial initialState) = Inr allJobs
       \<and> cachedJobs (fst (fetchAllJobsAndUpdateCache envPartial initialState)) = allJobs
       \<and> totalPages (fst (fetchAllJobsAndUpdateCache envPartial initialState)) = 3
       \<and> requests (fst (fetchAllJobsAndUpdateCache envPartial initialState))
           = [GetJobsPage 1, GetJobsPage 2, GetJobsPage 3]
       \<and> mset allJobs = {#jobJan, jobMar#} \<and> length allJobs = 2)
   \<and> snd (fetchAllJobsAndUpdateCache envOffline initialState) = Inl (AxiosError None ''offline'')
   \<and> (\<exists>st msg. firstPageReply envOffline = Rejected st msg)
   \<and> fetchAllJobsAndUpdateCache_server envPartial initialState
       = fetchAllJobsAndUpdateCache envPartial initialState
   \<and> snd (fetchAllJobsAndUpdateCache_server envOffline initialState)
       = Inl (AxiosError None ''offline'')"
proof -
  have p: "firstPageReply envPartial = Reply (Some (examplePage [jobJan] 3))"
    by (simp add: envPartial_def)
  have perm: "\<forall>c xs. mset (arraySort envPartial c xs) = mset xs"
    by (simp add: envPartial_def envOffline_def mset_insertionSort)
  have n: "lastPage initialState (Reply (Some (examplePage [jobJan] 3))) = 3"
          "totalPages initialState = 16" "requests initialState = []"
    by (simp_all add: lastPage_def examplePage_def initialState_def)
  have r: "pageRecords (pageReply envPartial 2) = []"
          "pageRecords (pageReply envPartial 3) = [jobMar]"
          "pageRecords (pageReply envPartial 4) = [jobFeb]"
          "pageRecords (Reply (Some (examplePage [jobJan] 3))) = [jobJan]"
    by (simp_all add: envPartial_def pageRecords_def examplePage_def)
  have f: "snd (fetchAllJobsAndUpdateCache envOffline initialState) = Inl (AxiosError None ''offline'')"
          "snd (fetchAllJobsAndUpdateCache_server envOffline initialState)
             = Inl (AxiosError None ''offline'')"
    by (simp_all add: fetchAllJobsAndUpdateCache_def fetchAllJobsAndUpdateCache_server_def
          fetchAllTry_def envOffline_def authRejected_def)
  from bulk_fetch_partial_failure
       [of envPartial "Some (examplePage [jobJan] 3)" initialState "AxiosError None ''offline''"]
       bulk_fetch_partial_failure
       [of envOffline "Some (examplePage [jobJan] 3)" initialState "AxiosError None ''offline''"]
  show ?thesis using p perm n r f by (auto simp: upto_2_3 add_mset_commute)
qed

text \<open>
  Claim C2. The list a bulk fetch publishes from its \<^verbatim>\<open>catch\<close> block is not sorted.
  When page 1 is refused with 401 (or 403), new tokens are obtained and page 1 is requested
  once more; its results become \<open>cachedJobs\<close> as the upstream delivered them. With a
  record of January before one of March the published snapshot has a neighbouring pair in
  ascending order of creation, and the cache counts as valid, so the list is served.
\<close>

theorem retry_publishes_unsorted:
  "snd (fetchAllJobsAndUpdateCache envRetry stateCached) = Inr [jobJan, jobMar]
   \<and> cachedJobs (fst (fetchAllJobsAndUpdateCache envRetry stateCached)) = [jobJan, jobMar]
   \<and> createdTime (getTime envRetry) jobJan = Some 1704067200000
   \<and> createdTime (getTime envRetry) jobMar = Some 1709251200000
   \<and> \<not> successively (notOlder (getTime envRetry))
         (cachedJobs (fst (fetchAllJobsAndUpdateCache envRetry stateCached)))
   \<and> isCacheValid (fst (fetchAllJobsAndUpdateCache envRetry stateCached)) (now envRetry)"
proof -
  have g: "getTime envRetry = exampleGetTime" "now envRetry = 1000"
    by (simp_all add: envRetry_def envRefused_def envOffline_def)
  show ?thesis
    using fetchAll_envRetry example_times
    by (simp add: g notOlder_def isCacheValid_def truthyNum_def toNumber_def CACHE_DURATION_def)
qed

text \<open>
  Claim C3. The same \<^verbatim>\<open>catch\<close> block replaces the snapshot after the bulk fetch has
  failed. The cache holds three records; page 1 is refused with 401, the login succeeds,
  and the retry of page 1 delivers one record and reports three pages. No further page is
  requested (the requests are page 1, the login, page 1), \<^verbatim>\<open>totalPages\<close> and
  \<^verbatim>\<open>totalJobCount\<close> keep their old values, and the snapshot of three records is replaced
  by the single record of page 1. When the retried page 1 carries no record, the same
  happens inside the cache-refresh timer and leaves the cache empty.
\<close>

theorem retry_replaces_snapshot:
  "cachedJobs stateFull = [jobMar, jobFeb, jobJan]
   \<and> firstPageReply envRetryOne = Rejected (Some 401) ''Unauthorized''
   \<and> snd (fetchAllJobsAndUpdateCache envRetryOne stateFull) = Inr [jobJan]
   \<and> cachedJobs (fst (fetchAllJobsAndUpdateCache envRetryOne stateFull)) = [jobJan]
   \<and> cacheTimestamp (fst (fetchAllJobsAndUpdateCache envRetryOne stateFull)) = Some 1000
   \<and> requests (fst (fetchAllJobsAndUpdateCache envRetryOne stateFull))
       = requests stateFull @ [GetJobsPage 1, PostCreateAuthtoken, GetJobsPage 1]
   \<and> totalPages (fst (fetchAllJobsAndUpdateCache envRetryOne stateFull)) = totalPages stateFull
   \<and> totalJobCount (fst (fetchAllJobsAndUpdateCache envRetryOne stateFull))
       = totalJobCount stateFull
   \<and> firstPageReply envRetryNone = Rejected (Some 401) ''Unauthorized''
   \<and> cachedJobs (cacheRefreshTick envRetryNone stateFull) = []
   \<and> cacheTimestamp (cacheRefreshTick envRetryNone stateFull) = Some 1000"
proof -
  have c: "cachedJobs stateFull = [jobMar, jobFeb, jobJan]"
    by (simp add: stateFull_def)
  have one: "firstPageReply envRetryOne = Rejected (Some 401) ''Unauthorized''"
            "retryReply envRetryOne = Reply (Some (examplePage [jobJan] 3))"
            "now envRetryOne = 1000"
            "getAuthTokens envRetryOne = getAuthTokens envRefused"
    by (simp_all add: envRetryOne_def getAuthTokens_retryReply fun_eq_iff)
       (simp_all add: envRefused_def envOffline_def)
  have none: "firstPageReply envRetryNone = Rejected (Some 401) ''Unauthorized''"
             "retryReply envRetryNone = Reply (Some (examplePage [] 3))"
             "now envRetryNone = 1000"
             "getAuthTokens envRetryNone = getAuthTokens envRefused"
    by (simp_all add: envRetryNone_def getAuthTokens_retryReply fun_eq_iff)
       (simp_all add: envRefused_def envOffline_def)
  have d: "data_results (examplePage rs 3) = Some rs" for rs
    by (simp add: examplePage_def)
  have f1: "fetchAllJobsAndUpdateCache envRetryOne stateFull =
              (fst (getAuthTokens envRefused (stateFull\<lparr>requests := requests stateFull @ [GetJobsPage 1]\<rparr>))
                 \<lparr>requests := requests stateFull @ [GetJobsPage 1, PostCreateAuthtoken, GetJobsPage 1],
                  cachedJobs := [jobJan], cacheTimestamp := Some 1000\<rparr>, Inr [jobJan])"
    using fetchAll_retry [OF one(1) _ one(2) d, of stateFull _ "''t2''"]
    by (simp add: one envRefused_login)
  have f2: "fetchAllJobsAndUpdateCache envRetryNone stateFull =
              (fst (getAuthTokens envRefused (stateFull\<lparr>requests := requests stateFull @ [GetJobsPage 1]\<rparr>))
                 \<lparr>requests := requests stateFull @ [GetJobsPage 1, PostCreateAuthtoken, GetJobsPage 1],
                  cachedJobs := [], cacheTimestamp := Some 1000\<rparr>, Inr [])"
    using fetchAll_retry [OF none(1) _ none(2) d, of stateFull _ "''t2''"]
    by (simp add: none envRefused_login)
  show ?thesis
    using c one(1) none(1)
    by (simp add: f1 f2 cacheRefreshTick_def envRefused_login)
qed

text \<open>
  Claim C4. At the instant at which the refresh token expires the middleware takes none
  of its branches: with both tokens held, the access token expired since 100 and the clock
  at the refresh token's expiry 200, the second branch (\<^verbatim>\<open>now < refreshTokenExpiry\<close>) and
  the third (\<^verbatim>\<open>now > refreshTokenExpiry\<close>) are both skipped, and the request goes on with
  the expired access token and no upstream call, in both revisions. What the branches do
  otherwise is stated in \<open>ensureToken_no_tokens\<close> and \<open>ensureToken_decision_table\<close>.
\<close>

theorem ensureToken_at_refresh_expiry:
  "truthy (accessToken stateExpired) \<and> truthy (refreshToken stateExpired)
   \<and> toNumber (accessTokenExpiry stateExpired) < now (envReauth\<lparr>now := 200\<rparr>)
   \<and> toNumber (refreshTokenExpiry stateExpired) = now (envReauth\<lparr>now := 200\<rparr>)
   \<and> ensureToken (envReauth\<lparr>now := 200\<rparr>) stateExpired = (stateExpired, None)
   \<and> ensureToken_server (envReauth\<lparr>now := 200\<rparr>) stateExpired = (stateExpired, None)"
  by (simp add: ensureToken_def ensureToken_server_def ensureToken_with_def stateExpired_def
        stateCached_def truthy_def toNumber_def)

text \<open>
  Claim C5, as amended. When the refresh call is rejected (or answers without a token):
  \<^verbatim>\<open>refreshAccessToken\<close> of \<^verbatim>\<open>src/server.js\<close> gets new tokens if the clock is still before
  the refresh token's expiry, and otherwise fails with "Refresh token expired" having
  issued no login request; \<^verbatim>\<open>refreshAccessToken\<close> of the timer revision gets new tokens in
  both cases.
\<close>

theorem refresh_failure_fallback:
  "refreshReply e = Rejected st msg \<or> (refreshReply e = Reply d \<and> tokenOf d = None) \<longrightarrow>
     refreshAccessToken_server e s =
       (if now e < toNumber (refreshTokenExpiry s)
        then getAuthTokens e (s\<lparr>requests := requests s @ [PostRefreshToken]\<rparr>)
        else (s\<lparr>requests := requests s @ [PostRefreshToken]\<rparr>,
              Inl (Error ''Refresh token expired. Please authenticate again.'')))
     \<and> refreshAccessToken e s =
         getAuthTokens e (s\<lparr>requests := requests s @ [PostRefreshToken]\<rparr>)"
  using refresh_failed_server [of e st msg d s] refresh_failed_current [of e st msg d s]
  by (simp add: refreshFailed_server_def)

theorem refresh_failure_fallback_witness:
  "snd (refreshAccessToken_server envReauth stateCached) = Inr ''t2''
   \<and> refreshAccessToken_server envReauth stateExpired =
       (stateExpired\<lparr>requests := requests stateExpired @ [PostRefreshToken]\<rparr>,
        Inl (Error ''Refresh token expired. Please authenticate again.''))
   \<and> snd (refreshAccessToken envReauth stateExpired) = Inr ''t2''"
  using refresh_failure_fallback [of envReauth None "''offline''" None stateCached]
        refresh_failure_fallback [of envReauth None "''offline''" None stateExpired]
        envReauth_facts
  by (simp add: getAuthTokens_envReauth)

text \<open>
  In the timer revision the refresh token's expiry is not consulted: with the expiry (200)
  behind the clock (1000) and the refresh call rejected, a login request is issued and its
  token returned.
\<close>

theorem refresh_failure_counterexample:
  "refreshReply envReauth = Rejected None ''offline''
   \<and> toNumber (refreshTokenExpiry stateExpired) < now envReauth
   \<and> snd (refreshAccessToken envReauth stateExpired) = Inr ''t2''
   \<and> requests (fst (refreshAccessToken envReauth stateExpired))
       = requests stateExpired @ [PostRefreshToken, PostCreateAuthtoken]"
  using envReauth_facts
  by (simp add: refreshAccessToken_def getAuthTokens_envReauth)

text \<open>
  Claim C6. The text filter and the city and country checks lower-case both sides; the
  postal code is compared as it is with the lower-cased location. A record whose postal
  code \<open>SW1A 1AA\<close> contains the location \<open>SW1A\<close> (case-insensitively, and here even
  literally) is therefore not found: the search served from a valid cache holding just
  this record returns no result.
\<close>

theorem search_postal_code_case:
  "str_includes (toLowerCase ''SW1A 1AA'') (toLowerCase ''SW1A'')
   \<and> zip_code jobWestminster = Some ''SW1A 1AA''
   \<and> api_searchjobs envOffline stateWestminster (requestLocation ''SW1A'')
       = (stateWestminster,
          SearchResults (searchResponse stateWestminster (requestLocation ''SW1A'') [jobWestminster]))
   \<and> search_results (searchResponse stateWestminster (requestLocation ''SW1A'') [jobWestminster]) = []
   \<and> search_count (searchResponse stateWestminster (requestLocation ''SW1A'') [jobWestminster]) = 0"
proof -
  have g: "getOrRefresh envOffline stateWestminster = (stateWestminster, Inr [jobWestminster])"
    by (simp add: getOrRefresh_def isCacheValid_def stateWestminster_def stateCached_def
          envOffline_def truthyNum_def toNumber_def CACHE_DURATION_def)
  have m: "\<not> matchesLocation ''sw1a'' jobWestminster"
    by (simp add: matchesLocation_def lowerIncludes_def textIncludes_def jobWestminster_def
          exampleJob_def)
  have f: "filterByLocation (Some ''SW1A'') (filterByQuery None [jobWestminster]) = []"
    using m by (simp add: filterByLocation_def filterByQuery_def toLowerCase_example)
  have i: "str_includes (toLowerCase ''SW1A 1AA'') (toLowerCase ''SW1A'')"
    by (simp add: toLowerCase_example)
  show ?thesis
    using g f i
    by (simp add: api_searchjobs_def searchResponse_def Let_def requestLocation_def truthy_def
          js_slice_def jobWestminster_def)
qed

text \<open>
  Claim C7, as amended. For a page number \<open>p \<ge> 1\<close> and a job list of \<open>n\<close> records (an
  array, so \<open>n < 2^32\<close>), the response of \<^verbatim>\<open>/api/jobs\<close> carries the records at positions
  \<open>(p - 1) * 20\<close> up to, not including, \<open>p * 20\<close> (at most 20 of them), \<open>count = n\<close>,
  \<open>num_pages = \<lceil>n / 20\<rceil>\<close>, \<open>page_count\<close> the number of records carried, and a \<open>next\<close> link,
  to \<open>p + 1\<close>, exactly when \<open>p < num_pages\<close>. The \<open>previous\<close> link is present exactly when
  \<open>p > 1\<close>, whether or not page \<open>p - 1\<close> has records; it names \<open>p - 1\<close> as the handler's
  number arithmetic yields it, which is \<open>p - 1\<close> itself up to \<open>2^53\<close>. Beyond the last page
  the slice is empty. The handler answers with this response whenever the cache or the
  bulk fetch delivers the list, so a page beyond the last one is answered like any other.
\<close>

theorem list_page_slice:
  assumes "1 \<le> p" and "length allJobs < 2 ^ 32"
  shows "resp_results (jobsResponse rq allJobs p) = take 20 (drop (nat ((p - 1) * 20)) allJobs)
    \<and> length (resp_results (jobsResponse rq allJobs p)) \<le> 20
    \<and> resp_count (jobsResponse rq allJobs p) = length allJobs
    \<and> resp_num_pages (jobsResponse rq allJobs p) = \<lceil>real (length allJobs) / 20\<rceil>
    \<and> resp_page_number (jobsResponse rq allJobs p) = p
    \<and> resp_page_count (jobsResponse rq allJobs p) = length (resp_results (jobsResponse rq allJobs p))
    \<and> resp_next (jobsResponse rq allJobs p) =
        (if p < \<lceil>real (length allJobs) / 20\<rceil>
         then Some (JobsPageLink (protocol rq) (host rq) (p + 1)) else None)
    \<and> resp_previous (jobsResponse rq allJobs p) =
        (if 1 < p then Some (JobsPageLink (protocol rq) (host rq) (jsNumber (p - 1))) else None)
    \<and> (p \<le> 2 ^ 53 \<longrightarrow> jsNumber (p - 1) = p - 1)
    \<and> (\<lceil>real (length allJobs) / 20\<rceil> < p \<longrightarrow> resp_results (jobsResponse rq allJobs p) = [])
    \<and> (getOrRefresh e s = (s1, Inr allJobs) \<and> query_page rq = Some p \<longrightarrow>
          api_jobs e s rq = (s1, JobsPage (jobsResponse rq allJobs p)))"
proof -
  have r: "resp_results (jobsResponse rq allJobs p)
             = js_slice allJobs (jsNumber (jsNumber (p - 1) * 20)) (jsNumber (p * 20))"
    by (simp add: jobsResponse_def Let_def)
  have res: "resp_results (jobsResponse rq allJobs p) = take 20 (drop (nat ((p - 1) * 20)) allJobs)"
    unfolding r by (rule page_indices [OF assms])
  have nxt: "p < \<lceil>real (length allJobs) / 20\<rceil> \<Longrightarrow> jsNumber (p + 1) = p + 1"
  proof -
    assume "p < \<lceil>real (length allJobs) / 20\<rceil>"
    then have "p < int (length allJobs)" using num_pages_bound [of "length allJobs"] by linarith
    then have "p + 1 < 2 ^ 53" using assms(2) by simp
    then show ?thesis using assms(1) by (intro jsNumber_exact) simp_all
  qed
  have prev: "p \<le> 2 ^ 53 \<Longrightarrow> jsNumber (p - 1) = p - 1"
    using assms(1) by (intro jsNumber_exact) simp_all
  have beyond: "\<lceil>real (length allJobs) / 20\<rceil> < p \<Longrightarrow> resp_results (jobsResponse rq allJobs p) = []"
    unfolding res using beyond_last_page [of allJobs p] by simp
  have hdl: "getOrRefresh e s = (s1, Inr allJobs) \<and> query_page rq = Some p \<Longrightarrow>
          api_jobs e s rq = (s1, JobsPage (jobsResponse rq allJobs p))"
    by (simp add: api_jobs_def)
  have rest: "resp_count (jobsResponse rq allJobs p) = length allJobs
    \<and> resp_num_pages (jobsResponse rq allJobs p) = \<lceil>real (length allJobs) / 20\<rceil>
    \<and> resp_page_number (jobsResponse rq allJobs p) = p
    \<and> resp_page_count (jobsResponse rq allJobs p) = length (resp_results (jobsResponse rq allJobs p))
    \<and> resp_next (jobsResponse rq allJobs p) =
        (if p < \<lceil>real (length allJobs) / 20\<rceil>
         then Some (JobsPageLink (protocol rq) (host rq) (jsNumber (p + 1))) else None)
    \<and> resp_previous (jobsResponse rq allJobs p) =
        (if 1 < p then Some (JobsPageLink (protocol rq) (host rq) (jsNumber (p - 1))) else None)"
    by (simp add: jobsResponse_def Let_def)
  have len: "length (resp_results (jobsResponse rq allJobs p)) \<le> 20"
    unfolding res by simp
  show ?thesis
    using res len rest nxt prev beyond hdl by auto
qed

theorem list_page_slice_witness:
  "resp_results (jobsResponse (requestPage 3) (replicate 45 jobJan) 3) = replicate 5 jobJan
   \<and> resp_num_pages (jobsResponse (requestPage 3) (replicate 45 jobJan) 3) = 3
   \<and> resp_next (jobsResponse (requestPage 3) (replicate 45 jobJan) 3) = None
   \<and> resp_next (jobsResponse (requestPage 2) (replicate 45 jobJan) 2)
       = Some (JobsPageLink ''https'' ''jobs.example'' 3)
   \<and> resp_previous (jobsResponse (requestPage 3) (replicate 45 jobJan) 3)
       = Some (JobsPageLink ''https'' ''jobs.example'' 2)
   \<and> resp_results (jobsResponse (requestPage 4) (replicate 45 jobJan) 4) = []
   \<and> api_jobs envOffline stateCached (requestPage 2)
       = (stateCached, JobsPage (jobsResponse (requestPage 2) [jobFeb] 2))"
proof -
  have g: "getOrRefresh envOffline stateCached = (stateCached, Inr [jobFeb])"
    by (simp add: getOrRefresh_def isCacheValid_def stateCached_def envOffline_def
          truthyNum_def toNumber_def CACHE_DURATION_def)
  have q: "query_page (requestPage 2) = Some 2" "protocol (requestPage 3) = ''https''"
          "host (requestPage 3) = ''jobs.example''" "protocol (requestPage 2) = ''https''"
          "host (requestPage 2) = ''jobs.example''"
    by (simp_all add: requestPage_def)
  show ?thesis
    using list_page_slice [of 3 "replicate 45 jobJan" "requestPage 3"]
          list_page_slice [of 2 "replicate 45 jobJan" "requestPage 2"]
          list_page_slice [of 4 "replicate 45 jobJan" "requestPage 4"]
          list_page_slice [of 2 "[jobFeb]" "requestPage 2" envOffline stateCached stateCached]
          g q ceiling_example jsNumber_small_examples
    by simp
qed

text \<open>
  The claim as stated ties the \<open>previous\<close> link to the existence of the preceding page.
  Of 45 records there are 3 pages; the response for page 5 carries a \<open>previous\<close> link to
  page 4, which has no record.
\<close>

theorem list_page_previous_counterexample:
  "resp_num_pages (jobsResponse (requestPage 5) (replicate 45 jobJan) 5) = 3
   \<and> resp_previous (jobsResponse (requestPage 5) (replicate 45 jobJan) 5)
       = Some (JobsPageLink ''https'' ''jobs.example'' 4)
   \<and> resp_results (jobsResponse (requestPage 4) (replicate 45 jobJan) 4) = []"
proof -
  have a: "js_slice (replicate 45 jobJan) (jsNumber (jsNumber (4 - 1) * 20)) (jsNumber (4 * 20))
            = take 20 (drop (nat ((4 - 1) * 20)) (replicate 45 jobJan))"
    by (rule page_indices) simp_all
  have r: "resp_results (jobsResponse (requestPage 4) (replicate 45 jobJan) 4)
             = js_slice (replicate 45 jobJan) (jsNumber (jsNumber (4 - 1) * 20)) (jsNumber (4 * 20))"
    by (simp add: jobsResponse_def Let_def)
  have "resp_results (jobsResponse (requestPage 4) (replicate 45 jobJan) 4) = []"
    unfolding r a by simp
  then show ?thesis
    using ceiling_example jsNumber_small_examples
    by (simp add: jobsResponse_def Let_def requestPage_def)
qed

text \<open>
  Claim C8, as amended. The cache is valid exactly when \<open>cachedJobs\<close> is not empty, the
  capture time is set (and not 0) and less than 30 minutes lie between it and now. While
  it is valid, a read returns \<open>cachedJobs\<close> and leaves the state, with its trace of upstream
  requests, untouched; so two successive reads within the 30 minutes return the same list
  and issue no upstream request.
\<close>

theorem snapshot_reuse_within_ttl:
  "(isCacheValid s t \<longleftrightarrow>
      cachedJobs s \<noteq> []
      \<and> (\<exists>c. cacheTimestamp s = Some c \<and> c \<noteq> 0 \<and> t - c < 30 * 60 * 1000))
   \<and> (isCacheValid s (now e1) \<and> isCacheValid s (now e2) \<longrightarrow>
        getOrRefresh e1 s = (s, Inr (cachedJobs s))
        \<and> getOrRefresh e2 (fst (getOrRefresh e1 s)) = (s, Inr (cachedJobs s)))"
  using isCacheValid_iff [of s t] by (simp add: getOrRefresh_valid)

theorem snapshot_reuse_within_ttl_witness:
  "isCacheValid stateCached (now envOffline)
   \<and> isCacheValid stateCached (now (envOffline\<lparr>now := 2000\<rparr>))
   \<and> getOrRefresh envOffline stateCached = (stateCached, Inr [jobFeb])
   \<and> getOrRefresh (envOffline\<lparr>now := 2000\<rparr>) (fst (getOrRefresh envOffline stateCached))
       = (stateCached, Inr [jobFeb])"
proof -
  have v: "isCacheValid stateCached (now envOffline)
           \<and> isCacheValid stateCached (now (envOffline\<lparr>now := 2000\<rparr>))"
    by (simp add: isCacheValid_def stateCached_def envOffline_def truthyNum_def toNumber_def
          CACHE_DURATION_def)
  have c: "cachedJobs stateCached = [jobFeb]"
    by (simp add: stateCached_def)
  have "getOrRefresh envOffline stateCached = (stateCached, Inr (cachedJobs stateCached))
        \<and> getOrRefresh (envOffline\<lparr>now := 2000\<rparr>) (fst (getOrRefresh envOffline stateCached))
            = (stateCached, Inr (cachedJobs stateCached))"
    using snapshot_reuse_within_ttl
            [of stateCached 1000 envOffline "envOffline\<lparr>now := 2000\<rparr>"] v
    by blast
  then show ?thesis
    using v unfolding c by blast
qed

text \<open>
  The claim as stated asks only for a snapshot less than 30 minutes old. A bulk fetch
  against an empty listing succeeds and publishes the empty list at time 1000; one
  millisecond later the cache is not valid, and the read issues upstream requests again.
\<close>

theorem snapshot_reuse_counterexample:
  "fetchAllJobsAndUpdateCache envEmpty initialState = (stateEmptySnapshot, Inr [])
   \<and> cacheTimestamp stateEmptySnapshot = Some 1000
   \<and> 1001 - 1000 < CACHE_DURATION
   \<and> \<not> isCacheValid stateEmptySnapshot 1001
   \<and> requests (fst (getOrRefresh (envEmpty\<lparr>now := 1001\<rparr>) stateEmptySnapshot))
        \<noteq> requests stateEmptySnapshot"
proof -
  have v: "\<not> isCacheValid stateEmptySnapshot t" for t
    using fetchAll_envEmpty by (simp add: isCacheValid_def)
  have "getOrRefresh (envEmpty\<lparr>now := 1001\<rparr>) stateEmptySnapshot =
          fetchAllJobsAndUpdateCache (envEmpty\<lparr>now := 1001\<rparr>) stateEmptySnapshot"
    using v by (simp add: getOrRefresh_def)
  then have "requests (fst (getOrRefresh (envEmpty\<lparr>now := 1001\<rparr>) stateEmptySnapshot))
               \<noteq> requests stateEmptySnapshot"
    using fetchAll_requests [of "envEmpty\<lparr>now := 1001\<rparr>" stateEmptySnapshot] by auto
  then show ?thesis
    using fetchAll_envEmpty v by (simp add: CACHE_DURATION_def)
qed

text \<open>
  Claim C9. The order in which the requests for pages 2 to \<open>totalPages\<close> complete has no
  effect on the bulk fetch. The completion order is given by \<open>pageLatency\<close>
  (\<open>settleOrder\<close> sorts the requests by it, and \<open>promiseAll\<close> stores each value as its
  request settles); two runs that differ only in the latencies of the pages end in the same
  state and return the same list, with the records in the same order.
\<close>

theorem arrival_order_irrelevant:
  "fetchAllJobsAndUpdateCache (e\<lparr>pageLatency := l1\<rparr>) s
     = fetchAllJobsAndUpdateCache (e\<lparr>pageLatency := l2\<rparr>) s"
  by (simp add: fetchAll_latency)

theorem arrival_order_irrelevant_witness:
  "settleOrder (\<lambda>p. if p = 2 then 5 else 0) [2, 3::int] \<noteq> settleOrder (\<lambda>p. 0) [2, 3::int]
   \<and> fetchAllJobsAndUpdateCache (envPartial\<lparr>pageLatency := (\<lambda>p. if p = 2 then 5 else 0)\<rparr>)
        initialState
     = fetchAllJobsAndUpdateCache (envPartial\<lparr>pageLatency := (\<lambda>p. 0)\<rparr>) initialState"
  using arrival_order_irrelevant
          [where e = envPartial and ?l1.0 = "\<lambda>p. if p = 2 then 5 else 0"
             and s = initialState and ?l2.0 = "\<lambda>p. 0"]
        settleOrder_example
  by simp

text \<open>
  Claim C10. The cache is never valid while \<open>cachedJobs\<close> is empty, whatever the time:
  a read then runs the bulk fetch (a request for page 1 is issued). A bulk fetch that
  succeeds with no record leaves a state in which the cache is not valid at any time.
\<close>

theorem empty_snapshot_never_valid:
  "(cachedJobs s = [] \<longrightarrow>
      \<not> isCacheValid s t
      \<and> getOrRefresh e s = fetchAllJobsAndUpdateCache e s
      \<and> (\<exists>more. requests (fst (getOrRefresh e s)) = requests s @ GetJobsPage 1 # more))
   \<and> (fetchAllJobsAndUpdateCache e s = (s', Inr []) \<longrightarrow> \<not> isCacheValid s' t)"
proof -
  have a: "cachedJobs s = [] \<Longrightarrow> \<not> isCacheValid s u" for u
    by (simp add: isCacheValid_def)
  have b: "fetchAllJobsAndUpdateCache e s = (s', Inr []) \<Longrightarrow> cachedJobs s' = []"
    using fetchAll_cache [of e s undefined "[]"] by simp
  show ?thesis
    using a [of t] a [of "now e"] b fetchAll_requests [of e s]
    by (auto simp: getOrRefresh_def isCacheValid_def)
qed

theorem empty_snapshot_never_valid_witness:
  "cachedJobs stateEmptySnapshot = []
   \<and> \<not> isCacheValid stateEmptySnapshot 1001
   \<and> getOrRefresh envEmpty stateEmptySnapshot
       = fetchAllJobsAndUpdateCache envEmpty stateEmptySnapshot
   \<and> (\<exists>more. requests (fst (getOrRefresh envEmpty stateEmptySnapshot))
                = requests stateEmptySnapshot @ GetJobsPage 1 # more)
   \<and> fetchAllJobsAndUpdateCache envEmpty initialState = (stateEmptySnapshot, Inr [])"
  using empty_snapshot_never_valid
          [of stateEmptySnapshot 1001 envEmpty stateEmptySnapshot]
        empty_snapshot_never_valid
          [of initialState 1001 envEmpty stateEmptySnapshot]
        fetchAll_envEmpty
  by auto

section \<open>Further properties\<close>

text \<open>
  The search on ASCII text, for a limit that is absent or not negative: every record
  returned is a record of the job list that passes each filter supplied (a filter is
  supplied when its parameter is a non-empty string; \<open>matchesQuery\<close> and
  \<open>matchesLocation\<close> are the handler's two tests, the second comparing the postal code as
  it is); the number of records returned is at most the limit; \<open>count\<close> is the size of the
  filtered list; \<open>next\<close> is \<^verbatim>\<open>true\<close> exactly when the limit cut the list short.
\<close>

theorem search_results_filtered:
  "(query_limit rq = None \<or> (\<exists>n. query_limit rq = Some n \<and> 0 \<le> n))
   \<and> asciiField (query_query rq) \<and> asciiField (query_location rq)
   \<and> list_all asciiJob allJobs \<longrightarrow>
     (\<forall>j \<in> set (search_results (searchResponse s rq allJobs)).
        j \<in> set allJobs
        \<and> (case query_query rq of
             None \<Rightarrow> True | Some t \<Rightarrow> t = [] \<or> matchesQuery (toLowerCase t) j)
        \<and> (case query_location rq of
             None \<Rightarrow> True | Some t \<Rightarrow> t = [] \<or> matchesLocation (toLowerCase t) j))
     \<and> int (length (search_results (searchResponse s rq allJobs)))
          \<le> (case query_limit rq of None \<Rightarrow> 100 | Some n \<Rightarrow> n)
     \<and> search_count (searchResponse s rq allJobs)
          = length (filterByLocation (query_location rq) (filterByQuery (query_query rq) allJobs))
     \<and> search_next (searchResponse s rq allJobs)
          = (if length (search_results (searchResponse s rq allJobs))
                < search_count (searchResponse s rq allJobs) then Some True else None)"
proof
  assume "(query_limit rq = None \<or> (\<exists>n. query_limit rq = Some n \<and> 0 \<le> n))
   \<and> asciiField (query_query rq) \<and> asciiField (query_location rq)
   \<and> list_all asciiJob allJobs"
  then have l: "query_limit rq = None \<or> (\<exists>n. query_limit rq = Some n \<and> 0 \<le> n)"
    by blast
  have "set (search_results (searchResponse s rq allJobs))
          \<subseteq> {j \<in> set allJobs.
               (case query_query rq of
                  None \<Rightarrow> True | Some t \<Rightarrow> t = [] \<or> matchesQuery (toLowerCase t) j)
               \<and> (case query_location rq of
                    None \<Rightarrow> True | Some t \<Rightarrow> t = [] \<or> matchesLocation (toLowerCase t) j)}"
    using searchResponse_properties(1) [OF l, of s allJobs]
    by (simp only: search_filters)
  then show "(\<forall>j \<in> set (search_results (searchResponse s rq allJobs)).
        j \<in> set allJobs
        \<and> (case query_query rq of
             None \<Rightarrow> True | Some t \<Rightarrow> t = [] \<or> matchesQuery (toLowerCase t) j)
        \<and> (case query_location rq of
             None \<Rightarrow> True | Some t \<Rightarrow> t = [] \<or> matchesLocation (toLowerCase t) j))
     \<and> int (length (search_results (searchResponse s rq allJobs)))
          \<le> (case query_limit rq of None \<Rightarrow> 100 | Some n \<Rightarrow> n)
     \<and> search_count (searchResponse s rq allJobs)
          = length (filterByLocation (query_location rq) (filterByQuery (query_query rq) allJobs))
     \<and> search_next (searchResponse s rq allJobs)
          = (if length (search_results (searchResponse s rq allJobs))
                < search_count (searchResponse s rq allJobs) then Some True else None)"
    using searchResponse_properties(2,3,4) [OF l, of s allJobs] by blast
qed

theorem search_results_filtered_witness:
  "asciiField (query_query (requestQuery ''ENGINEER''))
   \<and> list_all asciiJob [jobFeb, jobJan, jobJan]
   \<and> search_results (searchResponse stateCached (requestQuery ''ENGINEER'')
      [jobFeb, jobJan, jobJan]) = [jobJan]
   \<and> matchesQuery (toLowerCase ''ENGINEER'') jobJan
   \<and> search_count (searchResponse stateCached (requestQuery ''ENGINEER'')
        [jobFeb, jobJan, jobJan]) = 2
   \<and> search_next (searchResponse stateCached (requestQuery ''ENGINEER'')
        [jobFeb, jobJan, jobJan]) = Some True"
  using search_results_filtered [of "requestQuery ''ENGINEER''" "[jobFeb, jobJan, jobJan]" stateCached]
        search_example ascii_example
  by auto

text \<open>
  The branches of the middleware, in their order: without both tokens it gets new tokens;
  with both, an access token past its expiry and the clock before the refresh token's
  expiry it refreshes; with the clock past the refresh token's expiry it gets new tokens,
  also when the access token is still valid; with the clock at or before both expiries it
  leaves the state untouched, the trace of upstream requests included. The instant at which
  the refresh token expires, with the access token expired, is the case left out.
\<close>

theorem ensureToken_rows:
  "(\<not> (truthy (accessToken s) \<and> truthy (refreshToken s)) \<longrightarrow>
      ensureToken e s = authFailed (getAuthTokens e s))
   \<and> (truthy (accessToken s) \<and> truthy (refreshToken s)
        \<and> toNumber (accessTokenExpiry s) < now e \<and> now e < toNumber (refreshTokenExpiry s) \<longrightarrow>
        ensureToken e s = authFailed (refreshAccessToken e s))
   \<and> (truthy (accessToken s) \<and> truthy (refreshToken s)
        \<and> toNumber (refreshTokenExpiry s) < now e \<longrightarrow>
        ensureToken e s = authFailed (getAuthTokens e s))
   \<and> (truthy (accessToken s) \<and> truthy (refreshToken s)
        \<and> now e \<le> toNumber (accessTokenExpiry s) \<and> now e \<le> toNumber (refreshTokenExpiry s) \<longrightarrow>
        ensureToken e s = (s, None))"
  by (simp add: ensureToken_def ensureToken_with_def)

theorem ensureToken_rows_witness:
  "ensureToken envReauth initialState = authFailed (getAuthTokens envReauth initialState)
   \<and> snd (ensureToken envReauth initialState) = None
   \<and> ensureToken envReauth (stateExpired\<lparr>refreshTokenExpiry := Some 5000\<rparr>)
       = authFailed (refreshAccessToken envReauth (stateExpired\<lparr>refreshTokenExpiry := Some 5000\<rparr>))
   \<and> ensureToken envReauth stateExpired = authFailed (getAuthTokens envReauth stateExpired)
   \<and> ensureToken envReauth stateCached = (stateCached, None)
   \<and> ensureToken envReauth (fst (ensureToken envReauth initialState))
       = (fst (ensureToken envReauth initialState), None)"
proof -
  have a: "\<not> (truthy (accessToken initialState) \<and> truthy (refreshToken initialState))"
    by (simp add: initialState_def truthy_def)
  have b: "truthy (accessToken stateExpired)" "truthy (refreshToken stateExpired)"
          "truthy (accessToken stateCached)" "truthy (refreshToken stateCached)"
          "toNumber (accessTokenExpiry stateExpired) = 100"
          "toNumber (accessTokenExpiry stateCached) = 86400000"
    by (simp_all add: stateExpired_def stateCached_def truthy_def toNumber_def)
  have c: "truthy (accessToken (stateExpired\<lparr>refreshTokenExpiry := Some 5000\<rparr>))"
          "truthy (refreshToken (stateExpired\<lparr>refreshTokenExpiry := Some 5000\<rparr>))"
          "toNumber (accessTokenExpiry (stateExpired\<lparr>refreshTokenExpiry := Some 5000\<rparr>)) = 100"
          "toNumber (refreshTokenExpiry (stateExpired\<lparr>refreshTokenExpiry := Some 5000\<rparr>)) = 5000"
    by (simp_all add: stateExpired_def stateCached_def truthy_def toNumber_def)
  let ?s = "fst (getAuthTokens envReauth initialState)"
  have d: "truthy (accessToken ?s)" "truthy (refreshToken ?s)"
          "toNumber (accessTokenExpiry ?s) = 86401000" "toNumber (refreshTokenExpiry ?s) = 604801000"
    by (simp_all add: getAuthTokens_envReauth truthy_def toNumber_def)
  have r1: "ensureToken envReauth initialState = authFailed (getAuthTokens envReauth initialState)"
    using ensureToken_rows [of initialState envReauth] a by blast
  have r2: "ensureToken envReauth (stateExpired\<lparr>refreshTokenExpiry := Some 5000\<rparr>)
       = authFailed (refreshAccessToken envReauth (stateExpired\<lparr>refreshTokenExpiry := Some 5000\<rparr>))"
    using ensureToken_rows [of "stateExpired\<lparr>refreshTokenExpiry := Some 5000\<rparr>" envReauth] c
          envReauth_facts
    by simp
  have r3: "ensureToken envReauth stateExpired = authFailed (getAuthTokens envReauth stateExpired)"
    using ensureToken_rows [of stateExpired envReauth] b envReauth_facts by simp
  have r4: "ensureToken envReauth stateCached = (stateCached, None)"
    using ensureToken_rows [of stateCached envReauth] b envReauth_facts by simp
  have r5: "ensureToken envReauth ?s = (?s, None)"
    using ensureToken_rows [of ?s envReauth] d envReauth_facts by simp
  have e: "fst (ensureToken envReauth initialState) = ?s \<and> snd (ensureToken envReauth initialState) = None"
    by (simp add: r1 authFailed_def getAuthTokens_envReauth)
  show ?thesis
    using r1 r2 r3 r4 r5 e by simp
qed

text \<open>
  A bulk fetch that throws leaves \<open>cachedJobs\<close> and \<open>cacheTimestamp\<close> as they were, also
  inside the cache-refresh timer, which swallows the failure; whenever the bulk fetch
  returns a list, be it the sorted assembly of the pages or the retried page 1, the two
  variables are set together: the cache holds the returned list and the time of the fetch.
\<close>

theorem failed_fetch_keeps_snapshot:
  "(snd (fetchAllJobsAndUpdateCache e s) = Inl err \<longrightarrow>
      cachedJobs (fst (fetchAllJobsAndUpdateCache e s)) = cachedJobs s
      \<and> cacheTimestamp (fst (fetchAllJobsAndUpdateCache e s)) = cacheTimestamp s
      \<and> cachedJobs (cacheRefreshTick e s) = cachedJobs s
      \<and> cacheTimestamp (cacheRefreshTick e s) = cacheTimestamp s)
   \<and> (snd (fetchAllJobsAndUpdateCache e s) = Inr allJobs \<longrightarrow>
        cachedJobs (fst (fetchAllJobsAndUpdateCache e s)) = allJobs
        \<and> cacheTimestamp (fst (fetchAllJobsAndUpdateCache e s)) = Some (now e))"
  using fetchAll_cache [of e s err allJobs] by (simp add: cacheRefreshTick_def)

theorem failed_fetch_keeps_snapshot_witness:
  "snd (fetchAllJobsAndUpdateCache envRefused stateCached) =
     Inl (AxiosError (Some 401) ''Unauthorized'')
   \<and> cachedJobs (cacheRefreshTick envRefused stateCached) = [jobFeb]
   \<and> cacheTimestamp (cacheRefreshTick envRefused stateCached) = Some 500
   \<and> (\<exists>allJobs. snd (fetchAllJobsAndUpdateCache envPartial stateCached) = Inr allJobs
        \<and> cachedJobs (fst (fetchAllJobsAndUpdateCache envPartial stateCached)) = allJobs
        \<and> cacheTimestamp (fst (fetchAllJobsAndUpdateCache envPartial stateCached)) = Some 1000)"
proof -
  have p: "firstPageReply envPartial = Reply (Some (examplePage [jobJan] 3))"
    by (simp add: envPartial_def)
  have n: "now envPartial = 1000"
    by (simp add: envPartial_def envOffline_def)
  have c: "cachedJobs stateCached = [jobFeb] \<and> cacheTimestamp stateCached = Some 500"
    by (simp add: stateCached_def)
  obtain js where js: "snd (fetchAllJobsAndUpdateCache envPartial stateCached) = Inr js"
    by (simp add: fetchAll_Reply [OF p] fetchAllTry_Reply [OF p])
  from failed_fetch_keeps_snapshot
         [of envRefused stateCached "AxiosError (Some 401) ''Unauthorized''" js]
       failed_fetch_keeps_snapshot
         [of envPartial stateCached "AxiosError (Some 401) ''Unauthorized''" js]
  show ?thesis using fetchAll_envRefused js n c by simp
qed

end
